theory Spec2Isabelle
  imports Main "HOL-Library.Sublist" "HOL-Library.Char_ord" "HOL-Library.List_Lexorder"
begin

section \<open>JavaScript strings\<close>

text \<open>
  A JavaScript string is modelled as a \<^typ>\<open>string\<close>: a list of code units, restricted to
  the code units below 256. The methods used by the tools are written out below.
\<close>

text \<open>\<^verbatim>\<open>s.split(c)\<close> for a one-character separator: never empty, \<^verbatim>\<open>"".split(":")\<close> is \<^verbatim>\<open>[""]\<close>.\<close>

fun splitFrom :: "char \<Rightarrow> string \<Rightarrow> string \<Rightarrow> string list" where
  "splitFrom c cur [] = [cur]"
| "splitFrom c cur (x # xs) =
     (if x = c then cur # splitFrom c [] xs else splitFrom c (cur @ [x]) xs)"

definition splitOn :: "char \<Rightarrow> string \<Rightarrow> string list" where
  "splitOn c s = splitFrom c [] s"

text \<open>\<^verbatim>\<open>s.includes(sub)\<close>: \<open>sub\<close> occurs in \<open>s\<close> as a contiguous substring.\<close>

fun str_includes :: "string \<Rightarrow> string \<Rightarrow> bool" where
  "str_includes [] sub = (sub = [])"
| "str_includes (x # xs) sub = (prefix sub (x # xs) \<or> str_includes xs sub)"

text \<open>\<^verbatim>\<open>s.endsWith(suf)\<close>.\<close>

definition endsWith :: "string \<Rightarrow> string \<Rightarrow> bool" where
  "endsWith s suf = suffix suf s"

text \<open>\<^verbatim>\<open>xs[i]\<close> on an array: \<^verbatim>\<open>undefined\<close> (here \<open>None\<close>) out of range.\<close>

definition at_index :: "'a list \<Rightarrow> nat \<Rightarrow> 'a option" where
  "at_index xs i = (if i < length xs then Some (xs ! i) else None)"

section \<open>Access levels (the handler of hooks/access-level-bootstrap)\<close>

datatype AccessLevel = Public | Household | Trusted | Family | Private

text \<open>The string each level is in the source.\<close>

fun levelName :: "AccessLevel \<Rightarrow> string" where
  "levelName Public = ''public''"
| "levelName Household = ''household''"
| "levelName Trusted = ''trusted''"
| "levelName Family = ''family''"
| "levelName Private = ''private''"

text \<open>Access level hierarchy (higher index = more access).\<close>

definition ACCESS_LEVELS :: "AccessLevel list" where
  "ACCESS_LEVELS = [Public, Household, Trusted, Family, Private]"

text \<open>Known user mappings (Telegram IDs to access levels).\<close>

definition USER_ACCESS_MAP :: "(string \<times> AccessLevel) list" where
  "USER_ACCESS_MAP = [(''192802611'', Private)]"

text \<open>
  \<^verbatim>\<open>USER_ACCESS_MAP\<close> is an object literal, so the property read \<^verbatim>\<open>USER_ACCESS_MAP[id]\<close>
  looks \<open>id\<close> up among the object's own keys first and then along its prototype chain,
  which is \<^verbatim>\<open>Object.prototype\<close>. The members found there are functions (and, for
  \<^verbatim>\<open>__proto__\<close>, the prototype object): all truthy, none of them a level. The table
  below lists the members of \<^verbatim>\<open>Object.prototype\<close> with what each one converts to as a
  string in Node.
\<close>

definition OBJECT_PROTOTYPE :: "(string \<times> string) list" where
  "OBJECT_PROTOTYPE =
    [(''constructor'', ''function Object() { [native code] }''),
     (''__defineGetter__'', ''function __defineGetter__() { [native code] }''),
     (''__defineSetter__'', ''function __defineSetter__() { [native code] }''),
     (''hasOwnProperty'', ''function hasOwnProperty() { [native code] }''),
     (''__lookupGetter__'', ''function __lookupGetter__() { [native code] }''),
     (''__lookupSetter__'', ''function __lookupSetter__() { [native code] }''),
     (''isPrototypeOf'', ''function isPrototypeOf() { [native code] }''),
     (''propertyIsEnumerable'', ''function propertyIsEnumerable() { [native code] }''),
     (''toString'', ''function toString() { [native code] }''),
     (''valueOf'', ''function valueOf() { [native code] }''),
     (''__proto__'', ''[object Object]''),
     (''toLocaleString'', ''function toLocaleString() { [native code] }'')]"

text \<open>
  What a value of the declared type \<^verbatim>\<open>AccessLevel\<close> can be at run time: one of the five
  level strings, or a member inherited from \<^verbatim>\<open>Object.prototype\<close> (carried as its string
  conversion).
\<close>

datatype js_value = Level AccessLevel | Inherited string

fun toStr :: "js_value \<Rightarrow> string" where
  "toStr (Level l) = levelName l"
| "toStr (Inherited s) = s"

text \<open>\<^verbatim>\<open>USER_ACCESS_MAP[id]\<close>; \<open>None\<close> is \<^verbatim>\<open>undefined\<close>.\<close>

definition getProperty :: "(string \<times> AccessLevel) list \<Rightarrow> string \<Rightarrow> js_value option" where
  "getProperty obj key =
     (case map_of obj key of
        Some l \<Rightarrow> Some (Level l)
      | None \<Rightarrow> map_option Inherited (map_of OBJECT_PROTOTYPE key))"

text \<open>
  Derive access level from session key. Format: \<^verbatim>\<open>agent:main:channel:type:id[:extra]\<close>.
  The destructuring \<^verbatim>\<open>const [, , channel, type, id] = parts\<close> reads indices 3 and 4; with
  exactly four parts \<open>id\<close> is \<^verbatim>\<open>undefined\<close>. The test \<^verbatim>\<open>id && USER_ACCESS_MAP[id]\<close> is
  falsy for an undefined or empty \<open>id\<close> and for a missing property.
\<close>

definition deriveAccessLevel :: "string \<Rightarrow> js_value" where
  "deriveAccessLevel sessionKey =
     (if sessionKey = ''agent:main:main'' then Level Private
      else
        let parts = splitOn CHR '':'' sessionKey in
        if length parts < 4 then Level Public
        else
          let type = parts ! 3;
              id = at_index parts 4;
              known =
                (if type = ''dm'' then
                   (case id of
                      None \<Rightarrow> None
                    | Some i \<Rightarrow> if i = [] then None else getProperty USER_ACCESS_MAP i)
                 else None)
          in case known of
               Some v \<Rightarrow> v
             | None \<Rightarrow>
                 if type = ''group'' then Level Trusted
                 else if type = ''dm'' then Level Public
                 else Level Public)"

text \<open>\<^verbatim>\<open>xs.indexOf(v)\<close>: the first index of \<open>v\<close>, or \<open>-1\<close>.\<close>

fun indexOf :: "'a list \<Rightarrow> 'a \<Rightarrow> int" where
  "indexOf [] v = -1"
| "indexOf (x # xs) v =
     (if x = v then 0 else (let i = indexOf xs v in if i < 0 then -1 else i + 1))"

text \<open>Check if an access level can access content at a target level.\<close>

definition canAccess :: "js_value \<Rightarrow> js_value \<Rightarrow> bool" where
  "canAccess currentLevel targetLevel =
     (let currentIndex = indexOf (map Level ACCESS_LEVELS) currentLevel;
          targetIndex = indexOf (map Level ACCESS_LEVELS) targetLevel
      in currentIndex \<ge> targetIndex)"

text \<open>
  The ordering as the specification words it:
  \<open>public < household < trusted < family < private\<close>.
\<close>

fun rank :: "AccessLevel \<Rightarrow> nat" where
  "rank Public = 0"
| "rank Household = 1"
| "rank Trusted = 2"
| "rank Family = 3"
| "rank Private = 4"

section \<open>Paths (\<^verbatim>\<open>join\<close> of \<^verbatim>\<open>node:path\<close>, POSIX)\<close>

text \<open>
  \<^verbatim>\<open>join\<close> belongs to the Node runtime, not to the repository. It is written out here as
  the runtime defines it: the non-empty arguments are joined with \<^verbatim>\<open>/\<close> and the result
  is normalised (empty and \<^verbatim>\<open>.\<close> segments dropped, \<^verbatim>\<open>..\<close> resolved against the segment
  before it).
\<close>

text \<open>\<^verbatim>\<open>xs.join(sep)\<close> on an array of strings.\<close>

fun array_join :: "string \<Rightarrow> string list \<Rightarrow> string" where
  "array_join sep [] = []"
| "array_join sep [x] = x"
| "array_join sep (x # y # ys) = x @ sep @ array_join sep (y # ys)"

text \<open>
  \<^verbatim>\<open>normalizeString\<close>: \<open>res\<close> holds the segments kept so far, \<open>allowAbove\<close> is
  \<^verbatim>\<open>allowAboveRoot\<close>.
\<close>

fun normalizeSegs :: "bool \<Rightarrow> string list \<Rightarrow> string list \<Rightarrow> string list" where
  "normalizeSegs allowAbove res [] = res"
| "normalizeSegs allowAbove res (seg # segs) =
     (if seg = [] \<or> seg = ''.'' then normalizeSegs allowAbove res segs
      else if seg = ''..'' then
        (if res \<noteq> [] \<and> last res \<noteq> ''..'' then normalizeSegs allowAbove (butlast res) segs
         else if allowAbove then normalizeSegs allowAbove (res @ [''..'']) segs
         else normalizeSegs allowAbove res segs)
      else normalizeSegs allowAbove (res @ [seg]) segs)"

definition normalizePath :: "string \<Rightarrow> string" where
  "normalizePath path =
     (if path = [] then ''.''
      else
        let isAbsolute = (hd path = CHR ''/'');
            trailingSeparator = (last path = CHR ''/'');
            p = array_join ''/'' (normalizeSegs (\<not> isAbsolute) [] (splitOn CHR ''/'' path))
        in if p = [] then (if isAbsolute then ''/'' else if trailingSeparator then ''./'' else ''.'')
           else
             let p' = (if trailingSeparator then p @ ''/'' else p)
             in if isAbsolute then CHR ''/'' # p' else p')"

definition join :: "string \<Rightarrow> string \<Rightarrow> string" where
  "join a b =
     (if a = [] \<and> b = [] then ''.''
      else if a = [] then normalizePath b
      else if b = [] then normalizePath a
      else normalizePath (a @ ''/'' @ b))"

section \<open>The bootstrap hook (the handler of hooks/access-level-bootstrap)\<close>

text \<open>
  An entry of \<^verbatim>\<open>context.bootstrapFiles\<close>. The hook reads an entry as
  \<^verbatim>\<open>typeof file === "string" ? file : file.path\<close>: a string is its own path, an object
  carries a \<^verbatim>\<open>path\<close> (and here a \<^verbatim>\<open>role\<close>, as the entries the hook pushes). The host's
  list is not typed in the repository, so two ill-formed entries are kept: \<^verbatim>\<open>null\<close> or
  \<^verbatim>\<open>undefined\<close>, where reading \<^verbatim>\<open>.path\<close> throws, and an object without a \<^verbatim>\<open>path\<close>
  (or with one that is not a string), where calling a string method on the path throws.
\<close>

datatype BootstrapFile =
    PathString string
  | FileObject string string
  | NullEntry
  | NoPathObject

datatype error = TypeError | SyntaxError | Error string | IOError string

text \<open>
  What the host supplies where the hook expects a string (\<^verbatim>\<open>event.sessionKey\<close>,
  \<^verbatim>\<open>context.sessionKey\<close>, \<^verbatim>\<open>context.workspaceDir\<close>), the host's values being as little
  typed as its list: \<^verbatim>\<open>undefined\<close> (which stands for every falsy value that is not a
  string), a string, or a truthy value that is not a string and has none of a string's
  methods (a number, \<^verbatim>\<open>true\<close>, a plain object).
\<close>

datatype js_string = Undefined | Str string | NotAString

text \<open>Truthiness: the empty string is falsy.\<close>

fun isTruthy :: "js_string \<Rightarrow> bool" where
  "isTruthy Undefined = False"
| "isTruthy (Str s) = (s \<noteq> [])"
| "isTruthy NotAString = True"

text \<open>\<^verbatim>\<open>a || b\<close>.\<close>

definition orElse :: "js_string \<Rightarrow> js_string \<Rightarrow> js_string" where
  "orElse a b = (if isTruthy a then a else b)"

text \<open>\<^verbatim>\<open>typeof file === "string" ? file : file.path\<close>; \<open>None\<close> is \<^verbatim>\<open>undefined\<close>.\<close>

fun pathOf :: "BootstrapFile \<Rightarrow> error + string option" where
  "pathOf (PathString s) = Inr (Some s)"
| "pathOf (FileObject p r) = Inr (Some p)"
| "pathOf NullEntry = Inl TypeError"
| "pathOf NoPathObject = Inr None"

text \<open>The callback of \<^verbatim>\<open>context.bootstrapFiles.filter\<close> (non-private sessions).\<close>

definition keepFile :: "js_value \<Rightarrow> BootstrapFile \<Rightarrow> error + bool" where
  "keepFile accessLevel file =
     (case pathOf file of
        Inl e \<Rightarrow> Inl e
      | Inr None \<Rightarrow> Inl TypeError
      | Inr (Some path) \<Rightarrow>
          Inr (if endsWith path ''MEMORY.md'' \<or> str_includes path ''memory/private/MEMORY.md''
               then False
               else if str_includes path ''memory/private/'' \<and> accessLevel \<noteq> Level Private
               then False
               else if str_includes path ''memory/family/'' \<and> \<not> canAccess accessLevel (Level Family)
               then False
               else True))"

text \<open>\<^verbatim>\<open>Array.prototype.filter\<close> with that callback: the first exception ends it.\<close>

fun filterFiles :: "js_value \<Rightarrow> BootstrapFile list \<Rightarrow> error + BootstrapFile list" where
  "filterFiles accessLevel [] = Inr []"
| "filterFiles accessLevel (f # fs) =
     (case keepFile accessLevel f of
        Inl e \<Rightarrow> Inl e
      | Inr k \<Rightarrow>
          (case filterFiles accessLevel fs of
             Inl e \<Rightarrow> Inl e
           | Inr r \<Rightarrow> Inr (if k then f # r else r)))"

text \<open>\<^verbatim>\<open>context.bootstrapFiles.map((f) => typeof f === "string" ? f : f.path)\<close>.\<close>

fun existingPathsOf :: "BootstrapFile list \<Rightarrow> error + string option list" where
  "existingPathsOf [] = Inr []"
| "existingPathsOf (f # fs) =
     (case pathOf f of
        Inl e \<Rightarrow> Inl e
      | Inr p \<Rightarrow>
          (case existingPathsOf fs of
             Inl e \<Rightarrow> Inl e
           | Inr ps \<Rightarrow> Inr (p # ps)))"

text \<open>
  \<^verbatim>\<open>existingPaths.some((p) => p.includes(daily))\<close>: stops at the first match; an
  \<^verbatim>\<open>undefined\<close> path reached before one throws.
\<close>

fun somePathIncludes :: "string option list \<Rightarrow> string \<Rightarrow> error + bool" where
  "somePathIncludes [] daily = Inr False"
| "somePathIncludes (None # ps) daily = Inl TypeError"
| "somePathIncludes (Some p # ps) daily =
     (if str_includes p daily then Inr True else somePathIncludes ps daily)"

text \<open>
  The relative path of a daily note:
  \<^verbatim>\<open>join(`memory/${accessLevel}`, `${day}-daily.md`)\<close>.
\<close>

definition dailyFile :: "js_value \<Rightarrow> string \<Rightarrow> string" where
  "dailyFile accessLevel day = join (''memory/'' @ toStr accessLevel) (day @ ''-daily.md'')"

text \<open>
  \<^verbatim>\<open>deriveAccessLevel(sessionKey)\<close> as the hook calls it, on whatever the session key is:
  a value that is not a string differs from the main session's key and has no
  \<^verbatim>\<open>split\<close>, so the call throws.
\<close>

definition levelOf :: "js_string \<Rightarrow> error + js_value" where
  "levelOf sessionKey =
     (case sessionKey of Str k \<Rightarrow> Inr (deriveAccessLevel k) | _ \<Rightarrow> Inl TypeError)"

text \<open>
  \<^verbatim>\<open>context.bootstrapFiles.push({ path: join(workspaceDir, daily), role: "memory" })\<close>:
  \<^verbatim>\<open>join\<close> of \<^verbatim>\<open>node:path\<close> throws a \<^verbatim>\<open>TypeError\<close> on an argument that is not a string,
  and then nothing is pushed.
\<close>

definition pushDaily :: "js_string \<Rightarrow> string \<Rightarrow> BootstrapFile list \<Rightarrow> error + BootstrapFile list" where
  "pushDaily dir daily files =
     (case dir of
        Str d \<Rightarrow> Inr (files @ [FileObject (join d daily) ''memory''])
      | _ \<Rightarrow> Inl TypeError)"

text \<open>
  The body of the \<^verbatim>\<open>try\<close> block. \<open>dir\<close> is \<^verbatim>\<open>context.workspaceDir\<close>; \<open>today\<close> and
  \<open>yesterday\<close> are the date parts \<^verbatim>\<open>new Date().toISOString().split("T")[0]\<close> and the same
  one day earlier, read from the clock. The result is the exception raised, if any, and
  the value of \<^verbatim>\<open>context.bootstrapFiles\<close> when the block is left: the filtered list is
  assigned as soon as \<^verbatim>\<open>filter\<close> has returned, before the daily notes are looked at, and
  each \<^verbatim>\<open>push\<close> extends the list.
\<close>

definition tryBlock ::
  "js_string \<Rightarrow> js_string \<Rightarrow> string \<Rightarrow> string \<Rightarrow> BootstrapFile list
    \<Rightarrow> error option \<times> BootstrapFile list" where
  "tryBlock sessionKey dir today yesterday files =
     (case levelOf sessionKey of
        Inl e \<Rightarrow> (Some e, files)
      | Inr accessLevel \<Rightarrow>
          (case (if accessLevel \<noteq> Level Private then filterFiles accessLevel files
                 else Inr files) of
             Inl e \<Rightarrow> (Some e, files)
           | Inr files1 \<Rightarrow>
               let todayDaily = dailyFile accessLevel today;
                   yesterdayDaily = dailyFile accessLevel yesterday
               in (case existingPathsOf files1 of
                     Inl e \<Rightarrow> (Some e, files1)
                   | Inr existingPaths \<Rightarrow>
                       (case somePathIncludes existingPaths todayDaily of
                          Inl e \<Rightarrow> (Some e, files1)
                        | Inr hasToday \<Rightarrow>
                            (case (if \<not> hasToday then pushDaily dir todayDaily files1
                                   else Inr files1) of
                               Inl e \<Rightarrow> (Some e, files1)
                             | Inr files2 \<Rightarrow>
                                 (case somePathIncludes existingPaths yesterdayDaily of
                                    Inl e \<Rightarrow> (Some e, files2)
                                  | Inr hasYesterday \<Rightarrow>
                                      (case (if \<not> hasYesterday
                                             then pushDaily dir yesterdayDaily files2
                                             else Inr files2) of
                                         Inl e \<Rightarrow> (Some e, files2)
                                       | Inr files3 \<Rightarrow> (None, files3))))))))"

text \<open>
  The event and its context. The host may leave \<^verbatim>\<open>event.context\<close> out (\<open>None\<close>), and
  \<^verbatim>\<open>context.bootstrapFiles\<close> too; when it is there, the latter is an array.
\<close>

record hookContext =
  ctxSessionKey :: js_string
  workspaceDir :: js_string
  bootstrapFiles :: "BootstrapFile list option"

record hookEvent =
  evType :: string
  evAction :: string
  evSessionKey :: js_string
  evContext :: "hookContext option"

text \<open>\<^verbatim>\<open>event.sessionKey || context.sessionKey || ""\<close>.\<close>

definition sessionKeyOf :: "hookEvent \<Rightarrow> hookContext \<Rightarrow> js_string" where
  "sessionKeyOf event context =
     orElse (orElse (evSessionKey event) (ctxSessionKey context)) (Str [])"

text \<open>
  The handler. It returns the context as the host sees it afterwards; \<open>Inl\<close> is an
  exception reaching the host. Reading \<^verbatim>\<open>context.workspaceDir\<close> stands before the \<^verbatim>\<open>try\<close>
  and throws when the event has no context. The \<^verbatim>\<open>catch\<close> clause logs and does not
  rethrow, and it restores nothing.
\<close>

definition handler :: "string \<Rightarrow> string \<Rightarrow> hookEvent \<Rightarrow> error + hookContext option" where
  "handler today yesterday event =
     (if evType event \<noteq> ''agent'' \<or> evAction event \<noteq> ''bootstrap'' then Inr (evContext event)
      else
        (case evContext event of
           None \<Rightarrow> Inl TypeError
         | Some context \<Rightarrow>
             let sessionKey = sessionKeyOf event context;
                 dir = workspaceDir context
             in if \<not> isTruthy dir then Inr (Some context)
                else
                  (case bootstrapFiles context of
                     None \<Rightarrow> Inr (Some context)
                   | Some files \<Rightarrow>
                       (case tryBlock sessionKey dir today yesterday files of
                          (None, files') \<Rightarrow> Inr (Some (context\<lparr>bootstrapFiles := Some files'\<rparr>))
                        | (Some err, files') \<Rightarrow>
                            Inr (Some (context\<lparr>bootstrapFiles := Some files'\<rparr>))))))"

section \<open>More of JavaScript's strings\<close>

text \<open>
  The white space \<^verbatim>\<open>trim\<close> removes, among the code units below 256: tab, line feed,
  vertical tab, form feed, carriage return, space and no-break space.
\<close>

definition isWhitespace :: "char \<Rightarrow> bool" where
  "isWhitespace c = (c \<in> set [CHR 0x09, CHR 0x0A, CHR 0x0B, CHR 0x0C, CHR 0x0D, CHR 0x20, CHR 0xA0])"

definition trim :: "string \<Rightarrow> string" where
  "trim s = rev (dropWhile isWhitespace (rev (dropWhile isWhitespace s)))"

text \<open>\<^verbatim>\<open>toLowerCase\<close> on the code units below 256.\<close>

definition lowerChar :: "char \<Rightarrow> char" where
  "lowerChar c =
     (let n = of_char c :: nat in
      if (65 \<le> n \<and> n \<le> 90) \<or> (192 \<le> n \<and> n \<le> 222 \<and> n \<noteq> 215) then char_of (n + 32) else c)"

definition toLowerCase :: "string \<Rightarrow> string" where
  "toLowerCase s = map lowerChar s"

text \<open>The line feed, and \<^verbatim>\<open>content.split("\n")\<close>.\<close>

definition LF :: char where
  "LF = CHR 0x0A"

definition splitLines :: "string \<Rightarrow> string list" where
  "splitLines content = splitOn LF content"

section \<open>JSON values\<close>

text \<open>
  \<^verbatim>\<open>JSON.parse\<close> and \<^verbatim>\<open>JSON.stringify\<close> belong to the runtime; the tools below take them
  as parameters: \<open>parse\<close> gives \<open>None\<close> where \<^verbatim>\<open>JSON.parse\<close> throws a \<^verbatim>\<open>SyntaxError\<close>.
  Where a tool reads a parsed line without a declared type, the value is a \<open>json\<close>
  (a number's value plays no role here).
\<close>

datatype json =
    JNull
  | JBool bool
  | JNumber int
  | JString string
  | JArray "json list"
  | JObject "(string \<times> json) list"

text \<open>
  \<^verbatim>\<open>entry.date\<close>: a \<^verbatim>\<open>TypeError\<close> on \<^verbatim>\<open>null\<close>, the member of an object, \<^verbatim>\<open>undefined\<close>
  (\<open>None\<close>) on any other value.
\<close>

fun dateOf :: "json \<Rightarrow> error + json option" where
  "dateOf JNull = Inl TypeError"
| "dateOf (JObject members) = Inr (map_of members ''date'')"
| "dateOf v = Inr None"

section \<open>The file system (\<^verbatim>\<open>node:fs/promises\<close>) and src/utils/fs.ts\<close>

text \<open>
  The regular files by path, and the paths at which the operating system refuses to create
  or write (permissions, a read-only or full disk). An operation returns what the promise
  settles to (\<open>Inl\<close> a rejection) and the file system it leaves.
\<close>

record filesystem =
  file_at :: "string \<Rightarrow> string option"
  refused :: "string set"

fun message :: "error \<Rightarrow> string" where
  "message TypeError = ''TypeError''"
| "message SyntaxError = ''SyntaxError''"
| "message (Error m) = m"
| "message (IOError m) = m"

definition readFile :: "string \<Rightarrow> filesystem \<Rightarrow> error + string" where
  "readFile path fs =
     (case file_at fs path of None \<Rightarrow> Inl (IOError ''ENOENT'') | Some content \<Rightarrow> Inr content)"

definition writeFile :: "string \<Rightarrow> string \<Rightarrow> filesystem \<Rightarrow> (error + unit) \<times> filesystem" where
  "writeFile path data fs =
     (if path \<in> refused fs then (Inl (IOError ''EACCES''), fs)
      else (Inr (), fs\<lparr>file_at := (file_at fs)(path \<mapsto> data)\<rparr>))"

definition appendFile :: "string \<Rightarrow> string \<Rightarrow> filesystem \<Rightarrow> (error + unit) \<times> filesystem" where
  "appendFile path data fs =
     (if path \<in> refused fs then (Inl (IOError ''EACCES''), fs)
      else (Inr (),
            fs\<lparr>file_at := (file_at fs)(path \<mapsto>
                   (case file_at fs path of None \<Rightarrow> data | Some old \<Rightarrow> old @ data))\<rparr>))"

definition mkdir :: "string \<Rightarrow> filesystem \<Rightarrow> (error + unit) \<times> filesystem" where
  "mkdir path fs = (if path \<in> refused fs then (Inl (IOError ''EACCES''), fs) else (Inr (), fs))"

definition rename :: "string \<Rightarrow> string \<Rightarrow> filesystem \<Rightarrow> (error + unit) \<times> filesystem" where
  "rename src dst fs =
     (case file_at fs src of
        None \<Rightarrow> (Inl (IOError ''ENOENT''), fs)
      | Some content \<Rightarrow>
          if dst \<in> refused fs then (Inl (IOError ''EACCES''), fs)
          else (Inr (), fs\<lparr>file_at := ((file_at fs)(src := None))(dst \<mapsto> content)\<rparr>))"

definition copyFile :: "string \<Rightarrow> string \<Rightarrow> filesystem \<Rightarrow> (error + unit) \<times> filesystem" where
  "copyFile src dst fs =
     (case readFile src fs of
        Inl e \<Rightarrow> (Inl e, fs)
      | Inr content \<Rightarrow> writeFile dst content fs)"

text \<open>\<^verbatim>\<open>dirname\<close> of \<^verbatim>\<open>node:path\<close> (POSIX).\<close>

definition dirname :: "string \<Rightarrow> string" where
  "dirname path =
     (if path = [] then ''.''
      else
        let hasRoot = (hd path = CHR ''/'');
            body = dropWhile (\<lambda>c. c = CHR ''/'') (rev (tl path));
            after = dropWhile (\<lambda>c. c \<noteq> CHR ''/'') body
        in if after = [] then (if hasRoot then ''/'' else ''.'')
           else if hasRoot \<and> tl after = [] then ''//''
           else hd path # rev (tl after))"

text \<open>Read a file, returning null if it doesn't exist.\<close>

definition safeReadFile :: "string \<Rightarrow> filesystem \<Rightarrow> error + string option" where
  "safeReadFile path fs =
     (case readFile path fs of
        Inl e \<Rightarrow> (if e = IOError ''ENOENT'' then Inr None else Inl e)
      | Inr content \<Rightarrow> Inr (Some content))"

text \<open>Check if a file exists.\<close>

definition fileExists :: "string \<Rightarrow> filesystem \<Rightarrow> bool" where
  "fileExists path fs = (file_at fs path \<noteq> None)"

text \<open>
  Create a timestamped backup of a file; \<open>now\<close> is \<^verbatim>\<open>new Date().toISOString()\<close>.
  Returns the backup path, or null if the original doesn't exist.
\<close>

definition backupPathOf :: "string \<Rightarrow> string \<Rightarrow> string" where
  "backupPathOf now path =
     (let timestamp = map (\<lambda>c. if c = CHR '':'' \<or> c = CHR ''.'' then CHR ''-'' else c) now;
          backupDir = join (dirname path) ''.backups'';
          basename = last (splitOn CHR ''/'' path)
      in join backupDir (basename @ ''.'' @ timestamp))"

definition backupFile :: "string \<Rightarrow> string \<Rightarrow> filesystem \<Rightarrow> (error + string option) \<times> filesystem" where
  "backupFile now path fs =
     (if \<not> fileExists path fs then (Inr None, fs)
      else
        case mkdir (join (dirname path) ''.backups'') fs of
          (Inl e, fs1) \<Rightarrow> (Inl e, fs1)
        | (Inr u, fs1) \<Rightarrow>
            (case copyFile path (backupPathOf now path) fs1 of
               (Inl e, fs2) \<Rightarrow> (Inl e, fs2)
             | (Inr u, fs2) \<Rightarrow> (Inr (Some (backupPathOf now path)), fs2)))"

text \<open>
  Atomic write: writes to a temp file then renames. Optionally creates a backup of the
  original first. The options default to \<^verbatim>\<open>backup = false\<close>, \<^verbatim>\<open>createDirs = true\<close>.
\<close>

record WriteOptions =
  backup :: bool
  createDirs :: bool

definition defaultOptions :: WriteOptions where
  "defaultOptions = \<lparr>backup = False, createDirs = True\<rparr>"

definition atomicWrite ::
  "string \<Rightarrow> string \<Rightarrow> string \<Rightarrow> WriteOptions \<Rightarrow> filesystem \<Rightarrow> (error + unit) \<times> filesystem" where
  "atomicWrite now path content options fs =
     (case (if createDirs options then mkdir (dirname path) fs else (Inr (), fs)) of
        (Inl e, fs1) \<Rightarrow> (Inl e, fs1)
      | (Inr u, fs1) \<Rightarrow>
          (case (if backup options then backupFile now path fs1 else (Inr None, fs1)) of
             (Inl e, fs2) \<Rightarrow> (Inl e, fs2)
           | (Inr b, fs2) \<Rightarrow>
               let tmpPath = path @ ''.tmp'' in
               (case writeFile tmpPath content fs2 of
                  (Inl e, fs3) \<Rightarrow> (Inl e, fs3)
                | (Inr u, fs3) \<Rightarrow> rename tmpPath path fs3)))"

text \<open>Append content to a file, creating it if needed.\<close>

definition appendToFile :: "string \<Rightarrow> string \<Rightarrow> filesystem \<Rightarrow> (error + unit) \<times> filesystem" where
  "appendToFile path content fs =
     (case mkdir (dirname path) fs of
        (Inl e, fs1) \<Rightarrow> (Inl e, fs1)
      | (Inr u, fs1) \<Rightarrow> appendFile path content fs1)"

subsection \<open>What a reader can observe while a file is written\<close>

text \<open>
  \<^verbatim>\<open>writeFile\<close> is not atomic: it truncates the file and then writes the data piece by
  piece, so a concurrent reader can find any prefix of the data at the path. \<^verbatim>\<open>rename\<close>
  replaces the destination in one step. The functions below follow \<^verbatim>\<open>writeFile\<close>,
  \<^verbatim>\<open>copyFile\<close>, \<^verbatim>\<open>backupFile\<close> and \<^verbatim>\<open>atomicWrite\<close> and return, with the outcome, the
  states the file system passes through, in order; the last one is the state the
  operation leaves. A write cut short (a crash, a full disk) stops at one of these states.
\<close>

definition writeFileStates ::
  "string \<Rightarrow> string \<Rightarrow> filesystem \<Rightarrow> (error + unit) \<times> filesystem list" where
  "writeFileStates path data fs =
     (if path \<in> refused fs then (Inl (IOError ''EACCES''), [fs])
      else (Inr (),
            map (\<lambda>n. fs\<lparr>file_at := (file_at fs)(path \<mapsto> take n data)\<rparr>) [0 ..< Suc (length data)]))"

definition copyFileStates ::
  "string \<Rightarrow> string \<Rightarrow> filesystem \<Rightarrow> (error + unit) \<times> filesystem list" where
  "copyFileStates src dst fs =
     (case readFile src fs of
        Inl e \<Rightarrow> (Inl e, [fs])
      | Inr content \<Rightarrow> writeFileStates dst content fs)"

definition backupFileStates ::
  "string \<Rightarrow> string \<Rightarrow> filesystem \<Rightarrow> (error + string option) \<times> filesystem list" where
  "backupFileStates now path fs =
     (if \<not> fileExists path fs then (Inr None, [fs])
      else
        case mkdir (join (dirname path) ''.backups'') fs of
          (Inl e, fs1) \<Rightarrow> (Inl e, [fs1])
        | (Inr u, fs1) \<Rightarrow>
            (case copyFileStates path (backupPathOf now path) fs1 of
               (Inl e, states) \<Rightarrow> (Inl e, states)
             | (Inr u, states) \<Rightarrow> (Inr (Some (backupPathOf now path)), states)))"

definition atomicWriteStates ::
  "string \<Rightarrow> string \<Rightarrow> string \<Rightarrow> WriteOptions \<Rightarrow> filesystem
    \<Rightarrow> (error + unit) \<times> filesystem list" where
  "atomicWriteStates now path content options fs =
     (case (if createDirs options then mkdir (dirname path) fs else (Inr (), fs)) of
        (Inl e, fs1) \<Rightarrow> (Inl e, [fs1])
      | (Inr u, fs1) \<Rightarrow>
          (case (if backup options then backupFileStates now path fs1 else (Inr None, [fs1])) of
             (Inl e, states2) \<Rightarrow> (Inl e, states2)
           | (Inr b, states2) \<Rightarrow>
               let tmpPath = path @ ''.tmp'' in
               (case writeFileStates tmpPath content (last states2) of
                  (Inl e, states3) \<Rightarrow> (Inl e, states2 @ states3)
                | (Inr u, states3) \<Rightarrow>
                    (case rename tmpPath path (last states3) of
                       (r, fs4) \<Rightarrow> (r, states2 @ states3 @ [fs4])))))"

section \<open>The task executor (src/tools/task-executor.ts)\<close>

record Task =
  task_id :: string
  task_created :: string
  task_task :: string
  task_status :: string
  task_priority :: "string option"
  task_context :: "string option"
  task_command :: "string option"
  task_dueDate :: "string option"
  task_completedAt :: "string option"

text \<open>
  The lines \<^verbatim>\<open>readTasks\<close> parses:
  \<^verbatim>\<open>content.trim().split("\n").filter(line => line.trim().length > 0)\<close>.
\<close>

definition taskLines :: "string \<Rightarrow> string list" where
  "taskLines content = filter (\<lambda>line. trim line \<noteq> []) (splitLines (trim content))"

text \<open>The loop of \<^verbatim>\<open>readTasks\<close>: a line that does not parse is skipped.\<close>

fun parseLines :: "(string \<Rightarrow> 'a option) \<Rightarrow> string list \<Rightarrow> 'a list" where
  "parseLines parse [] = []"
| "parseLines parse (line # lines) =
     (case parse line of
        Some task \<Rightarrow> task # parseLines parse lines
      | None \<Rightarrow> parseLines parse lines)"

text \<open>Read all tasks from JSONL file.\<close>

definition readTasks :: "(string \<Rightarrow> 'a option) \<Rightarrow> string \<Rightarrow> filesystem \<Rightarrow> error + 'a list" where
  "readTasks parse tasksPath fs =
     (case readFile tasksPath fs of
        Inr content \<Rightarrow> Inr (parseLines parse (taskLines content))
      | Inl e \<Rightarrow> if e = IOError ''ENOENT'' then Inr [] else Inl e)"

text \<open>
  \<^verbatim>\<open>taskMap.set(key, value)\<close> on a \<^verbatim>\<open>Map\<close>, kept in insertion order: a key already
  present keeps its place and takes the new value, a new key goes last.
\<close>

fun mapSet :: "(string \<times> 'v) list \<Rightarrow> string \<Rightarrow> 'v \<Rightarrow> (string \<times> 'v) list" where
  "mapSet [] key v = [(key, v)]"
| "mapSet ((k, old) # entries) key v =
     (if k = key then (k, v) # entries else (k, old) # mapSet entries key v)"

text \<open>
  Get latest version of each task (by id). Tasks can have multiple entries in JSONL
  (status updates). Later entries overwrite earlier ones.
\<close>

definition getLatestTasks :: "Task list \<Rightarrow> Task list" where
  "getLatestTasks tasks =
     map snd (fold (\<lambda>task taskMap. mapSet taskMap (task_id task) task) tasks [])"

text \<open>Filter tasks by status; \<^verbatim>\<open>!filter\<close> holds for a missing or empty filter.\<close>

definition filterByStatus :: "Task list \<Rightarrow> string option \<Rightarrow> Task list" where
  "filterByStatus tasks flt =
     (case flt of
        None \<Rightarrow> tasks
      | Some f \<Rightarrow> if f = [] \<or> f = ''all'' then tasks else filter (\<lambda>task. task_status task = f) tasks)"

text \<open>
  Update task status by appending new line to JSONL. \<open>now\<close> is
  \<^verbatim>\<open>new Date().toISOString()\<close>, \<open>stringify\<close> is \<^verbatim>\<open>JSON.stringify\<close>.
\<close>

definition updatedTask :: "string \<Rightarrow> Task \<Rightarrow> string \<Rightarrow> Task" where
  "updatedTask now task newStatus =
     (let updated = task\<lparr>task_status := newStatus\<rparr>
      in if newStatus = ''completed'' then updated\<lparr>task_completedAt := Some now\<rparr> else updated)"

definition updateTaskStatus ::
  "(Task \<Rightarrow> string) \<Rightarrow> string \<Rightarrow> string \<Rightarrow> string \<Rightarrow> string \<Rightarrow> Task list \<Rightarrow> filesystem
    \<Rightarrow> (error + unit) \<times> filesystem" where
  "updateTaskStatus stringify now tasksPath taskId newStatus tasks fs =
     (case find (\<lambda>t. task_id t = taskId) tasks of
        None \<Rightarrow> (Inl (Error (''Task not found: '' @ taskId)), fs)
      | Some task \<Rightarrow>
          let jsonLine = stringify (updatedTask now task newStatus) @ [LF]
          in appendFile tasksPath jsonLine fs)"

text \<open>
  The \<^verbatim>\<open>list\<close> action of \<^verbatim>\<open>taskExecutor\<close>, on the tasks read from the log.
\<close>

definition listTasks :: "Task list \<Rightarrow> string option \<Rightarrow> Task list" where
  "listTasks allTasks flt = filterByStatus (getLatestTasks allTasks) flt"

section \<open>The diary (src/tools/diary.ts)\<close>

record DiaryEntry =
  diary_id :: string
  diary_timestamp :: string
  diary_date :: string
  diary_mood :: "string option"
  diary_energy :: "string option"
  diary_reflections :: string
  diary_gratitude :: "string list option"
  diary_challenges :: "string list option"
  diary_learnings :: "string list option"
  diary_connections :: "string list option"
  diary_tags :: "string list option"
  diary_private :: bool

record DiaryWriteParams =
  w_reflections :: string
  w_mood :: "string option"
  w_energy :: "string option"
  w_gratitude :: "string list option"
  w_challenges :: "string list option"
  w_learnings :: "string list option"
  w_connections :: "string list option"
  w_tags :: "string list option"

record DiaryReadParams =
  r_limit :: "int option"
  r_after :: "string option"
  r_before :: "string option"
  r_mood :: "string option"
  r_tag :: "string option"

text \<open>\<open>home\<close> is \<^verbatim>\<open>process.env.HOME\<close>.\<close>

definition DIARY_PATH :: "string \<Rightarrow> string" where
  "DIARY_PATH home = home @ ''/.openclaw/workspace/memory/diary.jsonl''"

text \<open>\<^verbatim>\<open>iso.split("T")[0]\<close>.\<close>

definition datePart :: "string \<Rightarrow> string" where
  "datePart isoString = hd (splitOn CHR ''T'' isoString)"

text \<open>
  Write a diary entry. \<open>uuid\<close> is \<^verbatim>\<open>randomUUID()\<close>, \<open>now\<close> the ISO time of the clock.
\<close>

definition diaryWrite ::
  "(DiaryEntry \<Rightarrow> string) \<Rightarrow> string \<Rightarrow> string \<Rightarrow> string \<Rightarrow> DiaryWriteParams \<Rightarrow> filesystem
    \<Rightarrow> (error + DiaryEntry) \<times> filesystem" where
  "diaryWrite stringify home uuid now params fs =
     (if w_reflections params = [] \<or> trim (w_reflections params) = []
      then (Inl (Error ''Reflections cannot be empty''), fs)
      else if length (w_reflections params) < 50
      then (Inl (Error ''Reflections should be at least 50 characters (be genuine, take your time)''), fs)
      else
        let entry =
              \<lparr>diary_id = uuid, diary_timestamp = now, diary_date = datePart now,
               diary_mood = w_mood params, diary_energy = w_energy params,
               diary_reflections = trim (w_reflections params),
               diary_gratitude = w_gratitude params, diary_challenges = w_challenges params,
               diary_learnings = w_learnings params, diary_connections = w_connections params,
               diary_tags = w_tags params, diary_private = True\<rparr>
        in case appendFile (DIARY_PATH home) (stringify entry @ [LF]) fs of
             (Inl e, fs1) \<Rightarrow> (Inl e, fs1)
           | (Inr u, fs1) \<Rightarrow> (Inr entry, fs1))"

text \<open>\<^verbatim>\<open>lines.map(line => JSON.parse(line))\<close>: the first line that does not parse throws.\<close>

fun parseAll :: "(string \<Rightarrow> 'a option) \<Rightarrow> string list \<Rightarrow> error + 'a list" where
  "parseAll parse [] = Inr []"
| "parseAll parse (line # lines) =
     (case parse line of
        None \<Rightarrow> Inl SyntaxError
      | Some entry \<Rightarrow>
          (case parseAll parse lines of
             Inl e \<Rightarrow> Inl e
           | Inr entries \<Rightarrow> Inr (entry # entries)))"

text \<open>\<^verbatim>\<open>entries.slice(0, limit)\<close>.\<close>

definition sliceTo :: "'a list \<Rightarrow> int \<Rightarrow> 'a list" where
  "sliceTo xs limit =
     (if limit \<ge> 0 then take (nat limit) xs else take (length xs - nat (- limit)) xs)"

text \<open>\<^verbatim>\<open>if (x) ...\<close> on an optional string: true for a defined, non-empty one.\<close>

definition truthy :: "string option \<Rightarrow> bool" where
  "truthy x = (case x of None \<Rightarrow> False | Some s \<Rightarrow> s \<noteq> [])"

text \<open>
  Read diary entries. \<open>sortNewestFirst\<close> is \<^verbatim>\<open>Array.prototype.sort\<close> with the comparator
  on the parsed timestamps, taken from the runtime. The result is the entries and the
  total.
\<close>

definition diaryRead ::
  "(string \<Rightarrow> DiaryEntry option) \<Rightarrow> (DiaryEntry list \<Rightarrow> DiaryEntry list) \<Rightarrow> string
    \<Rightarrow> DiaryReadParams \<Rightarrow> filesystem \<Rightarrow> error + DiaryEntry list \<times> nat" where
  "diaryRead parse sortNewestFirst home params fs =
     (if \<not> fileExists (DIARY_PATH home) fs then Inr ([], 0)
      else
        case readFile (DIARY_PATH home) fs of
          Inl e \<Rightarrow> Inl e
        | Inr content \<Rightarrow>
            let lines = filter (\<lambda>l. l \<noteq> []) (splitLines (trim content)) in
            (case parseAll parse lines of
               Inl e \<Rightarrow> Inl e
             | Inr entries0 \<Rightarrow>
                 let entries1 =
                       (if truthy (r_after params)
                        then filter (\<lambda>e. diary_date e \<ge> the (r_after params)) entries0 else entries0);
                     entries2 =
                       (if truthy (r_before params)
                        then filter (\<lambda>e. diary_date e \<le> the (r_before params)) entries1 else entries1);
                     entries3 =
                       (if truthy (r_mood params)
                        then filter (\<lambda>e. diary_mood e = r_mood params) entries2 else entries2);
                     entries4 =
                       (if truthy (r_tag params)
                        then filter (\<lambda>e. case diary_tags e of None \<Rightarrow> False
                                          | Some tags \<Rightarrow> the (r_tag params) \<in> set tags) entries3
                        else entries3);
                     sorted = sortNewestFirst entries4;
                     total = length sorted
                 in case r_limit params of
                      None \<Rightarrow> Inr (sorted, total)
                    | Some limit \<Rightarrow>
                        if limit = 0 then Inr (sorted, total) else Inr (sliceTo sorted limit, total)))"

section \<open>The research usage log (src/tools/research.ts)\<close>

record UsageLogEntry =
  usage_date :: string
  usage_timestamp :: string
  usage_provider :: string
  usage_query :: string

text \<open>Log usage to JSONL file. Appends a single line.\<close>

definition logUsage ::
  "(UsageLogEntry \<Rightarrow> string) \<Rightarrow> string \<Rightarrow> string \<Rightarrow> string \<Rightarrow> string \<Rightarrow> filesystem
    \<Rightarrow> (error + unit) \<times> filesystem" where
  "logUsage stringify now logFile provider query fs =
     (let entry = \<lparr>usage_date = datePart now, usage_timestamp = now,
                   usage_provider = provider, usage_query = query\<rparr>
      in appendToFile logFile (stringify entry @ [LF]) fs)"

text \<open>
  The filter of \<^verbatim>\<open>resetDailyQuota\<close>: keep only entries NOT from today; keep malformed
  lines. The \<^verbatim>\<open>catch\<close> covers the property read too.
\<close>

definition keepLine :: "(string \<Rightarrow> json option) \<Rightarrow> string \<Rightarrow> string \<Rightarrow> bool" where
  "keepLine parse todayStr line =
     (case parse line of
        None \<Rightarrow> True
      | Some entry \<Rightarrow>
          (case dateOf entry of
             Inl e \<Rightarrow> True
           | Inr d \<Rightarrow> d \<noteq> Some (JString todayStr)))"

text \<open>
  Reset daily quota by removing today's entries from log. \<open>now\<close> is the ISO time of
  the clock.
\<close>

definition resetDailyQuota ::
  "(string \<Rightarrow> json option) \<Rightarrow> string \<Rightarrow> string \<Rightarrow> filesystem \<Rightarrow> (error + unit) \<times> filesystem" where
  "resetDailyQuota parse now logFile fs =
     (if \<not> fileExists logFile fs then (Inr (), fs)
      else
        case safeReadFile logFile fs of
          Inl e \<Rightarrow> (Inl e, fs)
        | Inr None \<Rightarrow> (Inr (), fs)
        | Inr (Some content) \<Rightarrow>
            if content = [] then (Inr (), fs)
            else
              let todayStr = datePart now;
                  lines = filter (\<lambda>line. trim line \<noteq> []) (splitLines content);
                  filtered = filter (keepLine parse todayStr) lines;
                  newContent = array_join [LF] filtered @ (if filtered \<noteq> [] then [LF] else [])
              in atomicWrite now logFile newContent defaultOptions fs)"

section \<open>The dashboard note (src/tools/dashboard-note.ts)\<close>

record DashboardNote =
  note_message :: string
  note_emoji :: string
  note_timestamp :: string

definition MAX_MESSAGE_LENGTH :: nat where
  "MAX_MESSAGE_LENGTH = 500"

text \<open>Validate note content before writing; \<open>None\<close> is \<^verbatim>\<open>{ valid: true }\<close>.\<close>

definition validateNoteContent :: "string \<Rightarrow> string \<Rightarrow> string option" where
  "validateNoteContent msg emoji =
     (let trimmed = trim msg in
      if length trimmed = 0 then Some ''Message cannot be empty''
      else if length trimmed > MAX_MESSAGE_LENGTH then Some ''Message too long (max 500 characters)''
      else None)"

text \<open>
  Update the dashboard note with a new message. \<open>stringify\<close> is
  \<^verbatim>\<open>JSON.stringify(data, null, 2)\<close>.
\<close>

definition updateDashboardNote ::
  "(DashboardNote \<Rightarrow> string) \<Rightarrow> string \<Rightarrow> string \<Rightarrow> string \<Rightarrow> string \<Rightarrow> filesystem
    \<Rightarrow> (error + DashboardNote) \<times> filesystem" where
  "updateDashboardNote stringify now noteFile msg emoji fs =
     (case validateNoteContent msg emoji of
        Some err \<Rightarrow> (Inl (Error err), fs)
      | None \<Rightarrow>
          let note = \<lparr>note_message = trim msg, note_emoji = emoji, note_timestamp = now\<rparr>
          in case atomicWrite now noteFile (stringify note @ [LF]) defaultOptions fs of
               (Inl e, fs1) \<Rightarrow> (Inl e, fs1)
             | (Inr u, fs1) \<Rightarrow> (Inr note, fs1))"

section \<open>Quick capture (src/tools/quick-capture.ts)\<close>

record QuickCaptureParams =
  qc_content :: string
  qc_type :: string
  qc_priority :: "string option"
  qc_context :: "string option"
  qc_command :: "string option"
  qc_dueDate :: "string option"
  qc_workspaceRoot :: "string option"

record QuickCaptureResult =
  qc_success :: bool
  qc_taskId :: "string option"
  qc_filePath :: "string option"
  qc_error :: "string option"

definition failure :: "string \<Rightarrow> QuickCaptureResult" where
  "failure err = \<lparr>qc_success = False, qc_taskId = None, qc_filePath = None, qc_error = Some err\<rparr>"

definition VALID_TYPES :: "string list" where
  "VALID_TYPES = [''task'', ''uncertainty'', ''thread'', ''note'']"

definition VALID_PRIORITIES :: "string list" where
  "VALID_PRIORITIES = [''low'', ''medium'', ''high'']"

text \<open>Validate capture parameters; \<open>None\<close> is \<^verbatim>\<open>null\<close>, no error.\<close>

definition validateParams :: "QuickCaptureParams \<Rightarrow> string option" where
  "validateParams params =
     (if qc_content params = [] \<or> length (trim (qc_content params)) = 0
      then Some ''Content cannot be empty''
      else if qc_type params \<notin> set VALID_TYPES
      then Some (''Invalid type: '' @ qc_type params @ ''. Must be one of: ''
                 @ array_join '', '' VALID_TYPES)
      else if truthy (qc_priority params) \<and> the (qc_priority params) \<notin> set VALID_PRIORITIES
      then Some (''Invalid priority: '' @ the (qc_priority params) @ ''. Must be one of: ''
                 @ array_join '', '' VALID_PRIORITIES)
      else None)"

text \<open>
  The clock and the other values the tool reads from the runtime: the ISO time, the date
  parts of today and of tomorrow, \<^verbatim>\<open>randomUUID()\<close> and \<^verbatim>\<open>homedir()\<close>.
\<close>

record runtime =
  rt_now :: string
  rt_today :: string
  rt_tomorrow :: string
  rt_uuid :: string
  rt_homedir :: string

text \<open>Convert natural language date to YYYY-MM-DD.\<close>

definition parseDate :: "runtime \<Rightarrow> string \<Rightarrow> string" where
  "parseDate rt dateStr =
     (let lower = trim (toLowerCase dateStr) in
      if lower = ''tomorrow'' then rt_tomorrow rt
      else if lower = ''today'' then rt_today rt
      else dateStr)"

text \<open>\<^verbatim>\<open>join\<close> of three segments.\<close>

definition join3 :: "string \<Rightarrow> string \<Rightarrow> string \<Rightarrow> string" where
  "join3 a b c =
     (let parts = filter (\<lambda>s. s \<noteq> []) [a, b, c] in
      if parts = [] then ''.'' else normalizePath (array_join ''/'' parts))"

text \<open>Capture a task to tasks.jsonl.\<close>

definition captureTask ::
  "(Task \<Rightarrow> string) \<Rightarrow> runtime \<Rightarrow> QuickCaptureParams \<Rightarrow> string \<Rightarrow> filesystem
    \<Rightarrow> QuickCaptureResult \<times> filesystem" where
  "captureTask stringify rt params memoryDir fs =
     (let taskId = rt_uuid rt;
          task =
            \<lparr>task_id = taskId, task_created = rt_now rt, task_task = trim (qc_content params),
             task_status = ''pending'',
             task_priority = (if truthy (qc_priority params) then qc_priority params else Some ''medium''),
             task_context = (if truthy (qc_context params) then qc_context params else None),
             task_command = (if truthy (qc_command params) then qc_command params else None),
             task_dueDate =
               (if truthy (qc_dueDate params) then Some (parseDate rt (the (qc_dueDate params)))
                else None),
             task_completedAt = None\<rparr>;
          jsonLine = stringify task @ [LF];
          tasksPath = join memoryDir ''tasks.jsonl''
      in case appendFile tasksPath jsonLine fs of
           (Inr u, fs1) \<Rightarrow>
             (\<lparr>qc_success = True, qc_taskId = Some taskId, qc_filePath = Some tasksPath,
               qc_error = None\<rparr>, fs1)
         | (Inl e, fs1) \<Rightarrow> (failure (''Failed to write task: '' @ message e), fs1))"

text \<open>
  Capture uncertainty, or a note, to the daily file: the two functions differ in the
  section heading and in the error text.
\<close>

definition captureToDaily ::
  "string \<Rightarrow> string \<Rightarrow> runtime \<Rightarrow> QuickCaptureParams \<Rightarrow> string \<Rightarrow> filesystem
    \<Rightarrow> QuickCaptureResult \<times> filesystem" where
  "captureToDaily heading what rt params memoryDir fs =
     (let today = rt_today rt;
          dailyPath = join3 memoryDir ''private'' (today @ ''-daily.md'')
      in case mkdir (join memoryDir ''private'') fs of
           (Inl e, fs1) \<Rightarrow> (failure (''Failed to write '' @ what @ '': '' @ message e), fs1)
         | (Inr u, fs1) \<Rightarrow>
             let content0 =
                   (case readFile dailyPath fs1 of
                      Inr c \<Rightarrow> c
                    | Inl e \<Rightarrow> ''# '' @ today @ '' - Daily Log'' @ [LF, LF]);
                 content1 =
                   (if \<not> str_includes content0 heading then content0 @ [LF] @ heading @ [LF, LF]
                    else content0);
                 content2 = content1 @ ''- '' @ trim (qc_content params) @ [LF]
             in case writeFile dailyPath content2 fs1 of
                  (Inl e, fs2) \<Rightarrow> (failure (''Failed to write '' @ what @ '': '' @ message e), fs2)
                | (Inr u, fs2) \<Rightarrow>
                    (\<lparr>qc_success = True, qc_taskId = None, qc_filePath = Some dailyPath,
                      qc_error = None\<rparr>, fs2))"

definition captureUncertainty ::
  "runtime \<Rightarrow> QuickCaptureParams \<Rightarrow> string \<Rightarrow> filesystem \<Rightarrow> QuickCaptureResult \<times> filesystem" where
  "captureUncertainty = captureToDaily ''## Uncertain/Exploring'' ''uncertainty''"

definition captureNote ::
  "runtime \<Rightarrow> QuickCaptureParams \<Rightarrow> string \<Rightarrow> filesystem \<Rightarrow> QuickCaptureResult \<times> filesystem" where
  "captureNote = captureToDaily ''## Notes'' ''note''"

text \<open>
  Main quick capture function. The result is what the promise resolves to (the function
  has no path that rejects) and the file system it leaves.
\<close>

definition quickCapture ::
  "(Task \<Rightarrow> string) \<Rightarrow> runtime \<Rightarrow> QuickCaptureParams \<Rightarrow> filesystem
    \<Rightarrow> (error + QuickCaptureResult) \<times> filesystem" where
  "quickCapture stringify rt params fs =
     (case validateParams params of
        Some validationError \<Rightarrow> (Inr (failure validationError), fs)
      | None \<Rightarrow>
          let workspaceRoot =
                (if truthy (qc_workspaceRoot params) then the (qc_workspaceRoot params)
                 else join3 (rt_homedir rt) ''.openclaw'' ''workspace'');
              memoryDir = join workspaceRoot ''memory''
          in case mkdir memoryDir fs of
               (Inl e, fs1) \<Rightarrow>
                 (Inr (failure (''Failed to create memory directory: '' @ message e)), fs1)
             | (Inr u, fs1) \<Rightarrow>
                 if qc_type params = ''task''
                 then (case captureTask stringify rt params memoryDir fs1 of (r, fs2) \<Rightarrow> (Inr r, fs2))
                 else if qc_type params = ''uncertainty''
                 then (case captureUncertainty rt params memoryDir fs1 of (r, fs2) \<Rightarrow> (Inr r, fs2))
                 else if qc_type params = ''note''
                 then (case captureNote rt params memoryDir fs1 of (r, fs2) \<Rightarrow> (Inr r, fs2))
                 else if qc_type params = ''thread''
                 then (Inr (failure ''Thread capture not yet implemented - use thread-marker tool''), fs1)
                 else (Inr (failure (''Unknown type: '' @ qc_type params)), fs1))"

section \<open>The thread marker (src/tools/thread-marker.ts)\<close>

record ThreadMarkerParams =
  tm_topic :: string
  tm_question :: string
  tm_when :: "string option"
  tm_importance :: "string option"
  tm_workspaceRoot :: "string option"

record ThreadMarkerResult =
  tm_success :: bool
  tm_threadId :: "string option"
  tm_error :: "string option"

record Thread =
  thread_id :: string
  thread_timestamp :: string
  thread_topic :: string
  thread_question :: string
  thread_revisit :: "string option"
  thread_importance :: string
  thread_status :: string

record ThreadsFile =
  tf_threads :: "Thread list"

definition VALID_IMPORTANCE :: "string list" where
  "VALID_IMPORTANCE = [''low'', ''medium'', ''high'']"

text \<open>Validate parameters; \<open>None\<close> is \<^verbatim>\<open>null\<close>, no error.\<close>

definition validateParams_thread :: "ThreadMarkerParams \<Rightarrow> string option" where
  "validateParams_thread params =
     (if tm_topic params = [] \<or> length (trim (tm_topic params)) = 0
      then Some ''Topic cannot be empty''
      else if tm_question params = [] \<or> length (trim (tm_question params)) = 0
      then Some ''Question cannot be empty''
      else if truthy (tm_importance params) \<and> the (tm_importance params) \<notin> set VALID_IMPORTANCE
      then Some (''Invalid importance: '' @ the (tm_importance params) @ ''. Must be one of: ''
                 @ array_join '', '' VALID_IMPORTANCE)
      else None)"

text \<open>The runtime of the thread marker reads the date a week ahead as well.\<close>

record threadRuntime = runtime +
  rt_nextWeek :: string

text \<open>Parse natural language date to YYYY-MM-DD; \<open>None\<close> is \<^verbatim>\<open>undefined\<close>.\<close>

definition parseWhen :: "threadRuntime \<Rightarrow> string option \<Rightarrow> string option" where
  "parseWhen rt when =
     (if \<not> truthy when then None
      else
        let lower = trim (toLowerCase (the when)) in
        if lower = ''tomorrow'' then Some (rt_tomorrow rt)
        else if lower = ''next week'' then Some (rt_nextWeek rt)
        else if lower = ''today'' then Some (rt_today rt)
        else when)"

text \<open>
  Read existing threads file or create empty structure: the \<^verbatim>\<open>catch\<close> covers the read and
  the parse alike, so a file that does not parse reads as no threads. \<open>parse\<close> is
  \<^verbatim>\<open>JSON.parse\<close> at the type \<^verbatim>\<open>ThreadsFile\<close> the function declares.
\<close>

definition readThreadsFile :: "(string \<Rightarrow> ThreadsFile option) \<Rightarrow> string \<Rightarrow> filesystem \<Rightarrow> ThreadsFile" where
  "readThreadsFile parse threadsPath fs =
     (case readFile threadsPath fs of
        Inl e \<Rightarrow> \<lparr>tf_threads = []\<rparr>
      | Inr content \<Rightarrow>
          (case parse content of
             None \<Rightarrow> \<lparr>tf_threads = []\<rparr>
           | Some data \<Rightarrow> data))"

text \<open>Write threads file; \<open>stringify\<close> is \<^verbatim>\<open>JSON.stringify(data, null, 2)\<close>.\<close>

definition writeThreadsFile ::
  "(ThreadsFile \<Rightarrow> string) \<Rightarrow> string \<Rightarrow> ThreadsFile \<Rightarrow> filesystem \<Rightarrow> (error + unit) \<times> filesystem" where
  "writeThreadsFile stringify threadsPath data fs = writeFile threadsPath (stringify data) fs"

text \<open>The path of the thread store, and the thread a call creates.\<close>

definition threadsPathOf :: "threadRuntime \<Rightarrow> ThreadMarkerParams \<Rightarrow> string" where
  "threadsPathOf rt params =
     (let workspaceRoot =
            (if truthy (tm_workspaceRoot params) then the (tm_workspaceRoot params)
             else join3 (rt_homedir rt) ''.openclaw'' ''workspace'');
          memoryDir = join workspaceRoot ''memory''
      in join memoryDir ''threads.json'')"

definition newThread :: "threadRuntime \<Rightarrow> ThreadMarkerParams \<Rightarrow> Thread" where
  "newThread rt params =
     (let revisit = parseWhen rt (tm_when params) in
      \<lparr>thread_id = rt_uuid rt, thread_timestamp = rt_now rt,
       thread_topic = trim (tm_topic params), thread_question = trim (tm_question params),
       thread_revisit = (if truthy revisit then revisit else None),
       thread_importance =
         (if truthy (tm_importance params) then the (tm_importance params) else ''medium''),
       thread_status = ''open''\<rparr>)"

definition failed :: "string \<Rightarrow> ThreadMarkerResult" where
  "failed err = \<lparr>tm_success = False, tm_threadId = None, tm_error = Some err\<rparr>"

text \<open>
  Main thread marker function. The result is what the promise resolves to (the function
  has no path that rejects) and the file system it leaves.
\<close>

definition threadMarker ::
  "(string \<Rightarrow> ThreadsFile option) \<Rightarrow> (ThreadsFile \<Rightarrow> string) \<Rightarrow> threadRuntime
    \<Rightarrow> ThreadMarkerParams \<Rightarrow> filesystem \<Rightarrow> ThreadMarkerResult \<times> filesystem" where
  "threadMarker parse stringify rt params fs =
     (case validateParams_thread params of
        Some validationError \<Rightarrow> (failed validationError, fs)
      | None \<Rightarrow>
          let workspaceRoot =
                (if truthy (tm_workspaceRoot params) then the (tm_workspaceRoot params)
                 else join3 (rt_homedir rt) ''.openclaw'' ''workspace'');
              memoryDir = join workspaceRoot ''memory'';
              threadsPath = join memoryDir ''threads.json''
          in (case mkdir memoryDir fs of
                (Inl e, fs1) \<Rightarrow> (failed (''Failed to mark thread: '' @ message e), fs1)
              | (Inr u, fs1) \<Rightarrow>
                  let threadsData = readThreadsFile parse threadsPath fs1;
                      thread = newThread rt params;
                      data = threadsData\<lparr>tf_threads := tf_threads threadsData @ [thread]\<rparr>
                  in (case writeThreadsFile stringify threadsPath data fs1 of
                        (Inl e, fs2) \<Rightarrow> (failed (''Failed to mark thread: '' @ message e), fs2)
                      | (Inr u, fs2) \<Rightarrow>
                          (\<lparr>tm_success = True, tm_threadId = Some (rt_uuid rt), tm_error = None\<rparr>,
                           fs2))))"

section \<open>Example inputs\<close>

text \<open>Concrete values, used where a property is evaluated on an input.\<close>

definition exampleTask :: "string \<Rightarrow> string \<Rightarrow> string \<Rightarrow> Task" where
  "exampleTask i created st =
     \<lparr>task_id = i, task_created = created, task_task = ''water the plants'', task_status = st,
      task_priority = Some ''medium'', task_context = None, task_command = None,
      task_dueDate = None, task_completedAt = None\<rparr>"

definition exampleEntry :: DiaryEntry where
  "exampleEntry =
     \<lparr>diary_id = ''d1'', diary_timestamp = ''2026-02-05T10:00:00.000Z'', diary_date = ''2026-02-05'',
      diary_mood = None, diary_energy = None, diary_reflections = ''a quiet day'',
      diary_gratitude = None, diary_challenges = None, diary_learnings = None,
      diary_connections = None, diary_tags = None, diary_private = True\<rparr>"

definition emptyDisk :: filesystem where
  "emptyDisk = \<lparr>file_at = Map.empty, refused = {}\<rparr>"

definition exampleRuntime :: runtime where
  "exampleRuntime =
     \<lparr>rt_now = ''2026-02-05T10:00:00.000Z'', rt_today = ''2026-02-05'', rt_tomorrow = ''2026-02-06'',
      rt_uuid = ''0b5e'', rt_homedir = ''/home/u''\<rparr>"

definition blankWrite :: DiaryWriteParams where
  "blankWrite =
     \<lparr>w_reflections = ''   '', w_mood = None, w_energy = None, w_gratitude = None,
      w_challenges = None, w_learnings = None, w_connections = None, w_tags = None\<rparr>"

definition capture :: "string \<Rightarrow> QuickCaptureParams" where
  "capture content =
     \<lparr>qc_content = content, qc_type = ''task'', qc_priority = None, qc_context = None,
      qc_command = None, qc_dueDate = None, qc_workspaceRoot = Some ''/ws''\<rparr>"

definition usageParse :: "string \<Rightarrow> json option" where
  "usageParse line =
     (if line = ''{old}'' then Some (JObject [(''date'', JString ''2026-02-04'')])
      else if line = ''{new}'' then Some (JObject [(''date'', JString ''2026-02-05'')])
      else None)"

definition noteDisk :: filesystem where
  "noteDisk = \<lparr>file_at = [''note.json'' \<mapsto> ''xy''], refused = {}\<rparr>"

definition threadRuntime0 :: threadRuntime where
  "threadRuntime0 =
     \<lparr>rt_now = ''2026-02-05T10:00:00.000Z'', rt_today = ''2026-02-05'', rt_tomorrow = ''2026-02-06'',
      rt_uuid = ''0b5e'', rt_homedir = ''/home/u'', rt_nextWeek = ''2026-02-12''\<rparr>"

definition mark :: "string \<Rightarrow> ThreadMarkerParams" where
  "mark topic =
     \<lparr>tm_topic = topic, tm_question = ''again?'', tm_when = None, tm_importance = None,
      tm_workspaceRoot = Some ''/ws''\<rparr>"

definition oldThread :: Thread where
  "oldThread =
     \<lparr>thread_id = ''a1'', thread_timestamp = ''2026-02-01T09:00:00.000Z'', thread_topic = ''old'',
      thread_question = ''why?'', thread_revisit = None, thread_importance = ''medium'',
      thread_status = ''open''\<rparr>"

text \<open>
  Stand-ins for the serialiser and the parser of the thread store: a document is written
  as the list of its topics in brackets.
\<close>

definition topicsOf :: "ThreadsFile \<Rightarrow> string" where
  "topicsOf data = ''['' @ array_join '','' (map thread_topic (tf_threads data)) @ '']''"

definition threadsParse :: "string \<Rightarrow> ThreadsFile option" where
  "threadsParse content =
     (if content = ''[old]'' then Some \<lparr>tf_threads = [oldThread]\<rparr> else None)"

section \<open>Predicates of the properties\<close>

text \<open>Every file of \<open>fs\<close> is still there in \<open>fs'\<close>, with its former content as a prefix.\<close>

definition appendOnly :: "filesystem \<Rightarrow> filesystem \<Rightarrow> bool" where
  "appendOnly fs fs' =
     (\<forall>p old. file_at fs p = Some old \<longrightarrow> (\<exists>new. file_at fs' p = Some new \<and> prefix old new))"

text \<open>The invariant of the map \<^verbatim>\<open>getLatestTasks\<close> builds: one entry per id, each under its own id.\<close>

definition keyed :: "(string \<times> Task) list \<Rightarrow> bool" where
  "keyed m = (distinct (map fst m) \<and> (\<forall>(k, t) \<in> set m. task_id t = k))"

section \<open>Properties of the access levels\<close>

lemma indexOf_level: "indexOf (map Level ACCESS_LEVELS) (Level l) = int (rank l)"
  by (cases l) (simp_all add: ACCESS_LEVELS_def)

text \<open>
  Claim C6. Over the ordering \<open>public < household < trusted < family < private\<close>,
  \<open>canAccess level required\<close> is true exactly when the rank of \<open>level\<close> is at least the
  rank of \<open>required\<close>; it is reflexive, and monotone in the required level.
\<close>

theorem canAccess_rank:
  "(canAccess (Level l) (Level r) \<longleftrightarrow> rank r \<le> rank l)
   \<and> canAccess (Level l) (Level l)
   \<and> (canAccess (Level l) (Level r1) \<and> rank r2 \<le> rank r1 \<longrightarrow> canAccess (Level l) (Level r2))"
  by (simp add: canAccess_def indexOf_level)

theorem canAccess_rank_witness:
  "canAccess (Level Family) (Level Trusted) \<and> rank Household \<le> rank Trusted
   \<and> canAccess (Level Family) (Level Household) \<and> \<not> canAccess (Level Trusted) (Level Family)"
  using canAccess_rank [of Family Trusted Trusted Household] canAccess_rank [of Trusted Family]
  by simp

lemma deriveAccessLevel_own_keys:
  assumes "\<And>i. at_index (splitOn CHR '':'' s) 4 = Some i \<Longrightarrow> map_of OBJECT_PROTOTYPE i = None"
  shows "deriveAccessLevel s =
     (let parts = splitOn CHR '':'' s in
      if s = ''agent:main:main'' then Level Private
      else if length parts < 4 then Level Public
      else
        case (if parts ! 3 = ''dm'' then Option.bind (at_index parts 4) (map_of USER_ACCESS_MAP)
              else None) of
          Some l \<Rightarrow> Level l
        | None \<Rightarrow>
            if parts ! 3 = ''group'' then Level Trusted
            else if parts ! 3 = ''dm'' then Level Public
            else Level Public)"
proof (cases "at_index (splitOn CHR '':'' s) 4")
  case None
  then show ?thesis
    by (simp add: deriveAccessLevel_def Let_def)
next
  case (Some i)
  from assms [OF Some] have "getProperty USER_ACCESS_MAP i = map_option Level (map_of USER_ACCESS_MAP i)"
    by (simp add: getProperty_def split: option.splits)
  moreover have "map_of USER_ACCESS_MAP [] = None"
    by (simp add: USER_ACCESS_MAP_def)
  ultimately show ?thesis using Some
    by (simp add: deriveAccessLevel_def Let_def split: option.splits)
qed

text \<open>
  Claim C1. For every session key the resolver returns one of the five levels, by the
  priority rules. The rules hold for every key whose id is not the name of a member of
  \<^verbatim>\<open>Object.prototype\<close> (lemma \<open>deriveAccessLevel_own_keys\<close>). They fail at the direct
  message key with id \<^verbatim>\<open>constructor\<close>: the table lookup finds the inherited member, a
  function, and the resolver returns it; the result is none of the five levels.
\<close>

theorem deriveAccessLevel_constructor:
  "deriveAccessLevel ''agent:main:telegram:dm:constructor'' = Inherited ''function Object() { [native code] }''
   \<and> (\<forall>l. deriveAccessLevel ''agent:main:telegram:dm:constructor'' \<noteq> Level l)"
  by (simp add: deriveAccessLevel_def splitOn_def at_index_def getProperty_def USER_ACCESS_MAP_def OBJECT_PROTOTYPE_def)


section \<open>Properties of paths and of the bootstrap hook\<close>

lemma splitFrom_no_sep: "c \<notin> set a \<Longrightarrow> splitFrom c cur a = [cur @ a]"
  by (induction a arbitrary: cur) auto

lemma splitFrom_sep:
  "c \<notin> set a \<Longrightarrow> splitFrom c cur (a @ c # b) = (cur @ a) # splitFrom c [] b"
  by (induction a arbitrary: cur) auto

lemma dailyFile_level:
  assumes "CHR ''/'' \<notin> set day"
  shows "dailyFile (Level l) day = ''memory/'' @ levelName l @ ''/'' @ day @ ''-daily.md''"
proof -
  have day: "CHR ''/'' \<notin> set (day @ ''-daily.md'')" using assms by simp
  have ne: "day @ ''-daily.md'' \<noteq> []" "day @ ''-daily.md'' \<noteq> ''.''" "day @ ''-daily.md'' \<noteq> ''..''"
    by (auto simp: append_eq_Cons_conv)
  show ?thesis
    using ne by (cases l) (simp_all add: dailyFile_def join_def normalizePath_def splitOn_def
        splitFrom_no_sep [OF day] Let_def)
qed

lemma str_includes_length: "str_includes s sub \<Longrightarrow> length sub \<le> length s"
  by (induction s) (auto dest: prefix_length_le)

lemma keepFile_Inr: "keepFile lvl f = Inr k \<Longrightarrow> \<exists>p. pathOf f = Inr (Some p)"
  by (auto simp: keepFile_def split: sum.splits option.splits)

lemma filterFiles_ok:
  "filterFiles lvl fs = Inr r \<Longrightarrow>
     (\<forall>f \<in> set fs. \<exists>p. pathOf f = Inr (Some p)) \<and> r = filter (\<lambda>f. keepFile lvl f = Inr True) fs"
proof (induction fs arbitrary: r)
  case Nil
  then show ?case by simp
next
  case (Cons f fs)
  from Cons.prems obtain k r' where k: "keepFile lvl f = Inr k" and r': "filterFiles lvl fs = Inr r'"
    and r: "r = (if k then f # r' else r')"
    by (auto split: sum.splits)
  from Cons.IH [OF r'] keepFile_Inr [OF k] k r show ?case by auto
qed

lemma existingPathsOf_ok:
  "\<forall>f \<in> set fs. \<exists>p. pathOf f = Inr (Some p) \<Longrightarrow>
     \<exists>ps. existingPathsOf fs = Inr (map Some ps) \<and> length ps = length fs"
proof (induction fs)
  case Nil
  then show ?case by simp
next
  case (Cons f fs)
  then obtain ps where "existingPathsOf fs = Inr (map Some ps)" "length ps = length fs" by auto
  moreover obtain p where "pathOf f = Inr (Some p)" using Cons.prems by auto
  ultimately have "existingPathsOf (f # fs) = Inr (map Some (p # ps)) \<and> length (p # ps) = length (f # fs)"
    by simp
  then show ?case by blast
qed

lemma somePathIncludes_ok:
  "somePathIncludes (map Some ps) d = Inr (\<exists>p \<in> set ps. str_includes p d)"
  by (induction ps) auto

lemma somePathIncludes_False:
  "somePathIncludes ps d = Inr False \<Longrightarrow> somePathIncludes ps d' \<noteq> Inl e"
proof (induction ps d rule: somePathIncludes.induct)
  case (1 daily)
  then show ?case by simp
next
  case (2 ps daily)
  then show ?case by simp
next
  case (3 p ps daily)
  then show ?case by (auto split: if_splits)
qed

lemma tryBlock_raise:
  assumes "tryBlock k dir t y files = (Some e, out)"
  shows "out = files
         \<or> (\<exists>s. k = Str s \<and> deriveAccessLevel s \<noteq> Level Private
                \<and> (\<forall>d. dir \<noteq> Str d) \<and> filterFiles (deriveAccessLevel s) files = Inr out)"
proof (cases k)
  case Undefined
  with assms show ?thesis by (simp add: tryBlock_def levelOf_def)
next
  case NotAString
  with assms show ?thesis by (simp add: tryBlock_def levelOf_def)
next
  case (Str s)
  show ?thesis
  proof (cases "deriveAccessLevel s = Level Private")
    case True
    with assms Str show ?thesis
      by (auto simp: tryBlock_def levelOf_def Let_def pushDaily_def
          split: sum.splits if_splits js_string.splits dest: somePathIncludes_False)
  next
    case False
    show ?thesis
    proof (cases "filterFiles (deriveAccessLevel s) files")
      case (Inl e')
      with assms False Str show ?thesis by (simp add: tryBlock_def levelOf_def Let_def)
    next
      case (Inr kept)
      from filterFiles_ok [OF Inr] have wf: "\<forall>f \<in> set kept. \<exists>p. pathOf f = Inr (Some p)"
        by auto
      from existingPathsOf_ok [OF wf] obtain ps where ps: "existingPathsOf kept = Inr (map Some ps)"
        by blast
      from assms False Inr ps Str show ?thesis
        by (auto simp: tryBlock_def levelOf_def Let_def somePathIncludes_ok pushDaily_def
            split: if_splits js_string.splits sum.splits)
    qed
  qed
qed

lemma tryBlock_error_unchanged:
  assumes "tryBlock k (Str d) t y files = (Some e, out)"
  shows "out = files"
  using tryBlock_raise [OF assms] by auto

lemma tryBlock_private_unchanged:
  assumes "tryBlock (Str s) dir t y files = (Some e, out)" "deriveAccessLevel s = Level Private"
  shows "out = files"
  using tryBlock_raise [OF assms(1)] assms(2) by auto

lemma splitFrom_ne: "splitFrom c cur s \<noteq> []"
  by (induction s arbitrary: cur) auto

lemma last_splitFrom_sep:
  "last (splitFrom c cur (a @ c # b)) = last (splitFrom c [] b)"
  by (induction a arbitrary: cur) (auto simp: splitFrom_ne)

lemma last_splitFrom_suffix:
  "\<exists>y. last (splitFrom c cur (x @ s)) = y @ s" if "c \<notin> set s"
proof (cases "c \<in> set x")
  case False
  then have "c \<notin> set (x @ s)" using that by simp
  from splitFrom_no_sep [OF this] show ?thesis by simp
next
  case True
  then obtain a b where x: "x = a @ c # b" and b: "c \<notin> set b"
    by (meson split_list_last)
  have "last (splitFrom c cur (x @ s)) = last (splitFrom c [] (b @ s))"
    using last_splitFrom_sep [of c cur a "b @ s"] by (simp add: x)
  also have "\<dots> = b @ s" using b that by (simp add: splitFrom_no_sep)
  finally show ?thesis by blast
qed

lemma normalizeSegs_last:
  "segs \<noteq> [] \<Longrightarrow> last segs \<noteq> [] \<Longrightarrow> last segs \<noteq> ''.'' \<Longrightarrow> last segs \<noteq> ''..'' \<Longrightarrow>
     normalizeSegs ab res segs \<noteq> [] \<and> last (normalizeSegs ab res segs) = last segs"
proof (induction segs arbitrary: res)
  case Nil
  then show ?case by simp
next
  case (Cons seg segs)
  show ?case
  proof (cases "segs = []")
    case True
    with Cons.prems show ?thesis by simp
  next
    case False
    then have l: "last (seg # segs) = last segs" by simp
    have IH: "normalizeSegs ab r segs \<noteq> [] \<and> last (normalizeSegs ab r segs) = last segs" for r
      using Cons.IH [of r] Cons.prems False by simp
    show ?thesis
      unfolding l using IH by (cases ab) simp_all
  qed
qed

lemma array_join_last: "segs \<noteq> [] \<Longrightarrow> suffix (last segs) (array_join sep segs)"
  by (induction sep segs rule: array_join.induct) (auto simp: suffix_append)

lemma normalizePath_daily: "endsWith (normalizePath (x @ ''-daily.md'')) ''-daily.md''"
proof -
  let ?P = "x @ ''-daily.md''"
  let ?segs = "splitOn CHR ''/'' ?P"
  obtain y where y: "last ?segs = y @ ''-daily.md''"
    using last_splitFrom_suffix [of "CHR ''/''" "''-daily.md''" "[]" x] by (auto simp: splitOn_def)
  have ne: "?segs \<noteq> []" by (simp add: splitOn_def splitFrom_ne)
  have l: "last ?segs \<noteq> []" "last ?segs \<noteq> ''.''" "last ?segs \<noteq> ''..''"
    by (auto simp: y append_eq_Cons_conv)
  have s': "suffix ''-daily.md'' (array_join ''/'' (normalizeSegs ab [] ?segs))" for ab
  proof -
    let ?n = "normalizeSegs ab [] ?segs"
    from normalizeSegs_last [OF ne l] have n: "?n \<noteq> []" "last ?n = y @ ''-daily.md''"
      by (simp_all add: y)
    from array_join_last [OF n(1)] have "suffix (y @ ''-daily.md'') (array_join ''/'' ?n)"
      by (simp add: n)
    then show ?thesis
      by (meson suffix_appendD suffix_order.order_refl suffix_order.trans suffixI)
  qed
  have pne: "array_join ''/'' (normalizeSegs ab [] ?segs) \<noteq> []" for ab
    using s' [of ab] by auto
  have "last ?P \<noteq> CHR ''/''" by simp
  with s' pne show ?thesis
    by (simp add: normalizePath_def endsWith_def Let_def suffix_Cons)
qed

lemma join_daily: "endsWith (join a (x @ ''-daily.md'')) ''-daily.md''"
  using normalizePath_daily [of x] normalizePath_daily [of "a @ ''/'' @ x"]
  by (simp add: join_def)

lemma dailyFile_ends: "\<exists>w. dailyFile lvl day = w @ ''-daily.md''"
  using join_daily [of "''memory/'' @ toStr lvl" day]
  by (auto simp: dailyFile_def endsWith_def suffix_def)

lemma join_dailyFile_ends: "endsWith (join dir (dailyFile lvl day)) ''-daily.md''"
proof -
  obtain w where "dailyFile lvl day = w @ ''-daily.md''" using dailyFile_ends by blast
  then show ?thesis using join_daily [of dir w] by simp
qed

lemma daily_not_memory: "endsWith p ''-daily.md'' \<Longrightarrow> \<not> endsWith p ''MEMORY.md''"
  by (auto simp: endsWith_def suffix_def)

lemma pushDaily_Str: "pushDaily (Str d) daily fs = Inr (fs @ [FileObject (join d daily) ''memory''])"
  by (simp add: pushDaily_def)

lemma levelOf_Str: "levelOf (Str k) = Inr (deriveAccessLevel k)"
  by (simp add: levelOf_def)

lemma tryBlock_Str:
  "tryBlock (Str k) (Str dir) t y files =
     (case (if deriveAccessLevel k \<noteq> Level Private then filterFiles (deriveAccessLevel k) files
            else Inr files) of
        Inl e \<Rightarrow> (Some e, files)
      | Inr files1 \<Rightarrow>
          (case existingPathsOf files1 of
             Inl e \<Rightarrow> (Some e, files1)
           | Inr ps \<Rightarrow>
               (case somePathIncludes ps (dailyFile (deriveAccessLevel k) t) of
                  Inl e \<Rightarrow> (Some e, files1)
                | Inr hasToday \<Rightarrow>
                    (case somePathIncludes ps (dailyFile (deriveAccessLevel k) y) of
                       Inl e \<Rightarrow>
                         (Some e,
                          files1 @ (if hasToday then []
                             else [FileObject (join dir (dailyFile (deriveAccessLevel k) t)) ''memory'']))
                     | Inr hasYesterday \<Rightarrow>
                         (None,
                          files1
                          @ (if hasToday then []
                             else [FileObject (join dir (dailyFile (deriveAccessLevel k) t)) ''memory''])
                          @ (if hasYesterday then []
                             else [FileObject (join dir (dailyFile (deriveAccessLevel k) y)) ''memory''])))))) "
  unfolding tryBlock_def levelOf_Str pushDaily_Str Let_def sum.case
  by (simp split: sum.split)

lemma tryBlock_well_formed:
  assumes wf: "\<forall>f \<in> set files. \<exists>p. pathOf f = Inr (Some p)"
  shows "\<exists>out. tryBlock (Str k) (Str dir) t y files = (None, out)"
proof -
  let ?lvl = "deriveAccessLevel k"
  obtain kept where kept: "(if ?lvl \<noteq> Level Private then filterFiles ?lvl files else Inr files) = Inr kept"
    and wfk: "\<forall>f \<in> set kept. \<exists>p. pathOf f = Inr (Some p)"
  proof (cases "?lvl = Level Private")
    case True
    with wf that show ?thesis by simp
  next
    case False
    have "\<exists>r. filterFiles ?lvl files = Inr r" using wf
    proof (induction files)
      case Nil
      then show ?case by simp
    next
      case (Cons f fs)
      then obtain r p where "filterFiles ?lvl fs = Inr r" "pathOf f = Inr (Some p)" by auto
      then show ?case by (simp add: keepFile_def)
    qed
    then obtain r where r: "filterFiles ?lvl files = Inr r" by blast
    from filterFiles_ok [OF r] wf have "\<forall>f \<in> set r. \<exists>p. pathOf f = Inr (Some p)" by auto
    with r False that show ?thesis by simp
  qed
  from existingPathsOf_ok [OF wfk] obtain ps where "existingPathsOf kept = Inr (map Some ps)" by blast
  with kept show ?thesis
    by (simp add: tryBlock_Str somePathIncludes_ok)
qed

lemma tryBlock_result:
  assumes "tryBlock (Str k) (Str dir) t y files = (None, out)"
  shows "\<exists>kept ps hasToday hasYesterday.
           (if deriveAccessLevel k \<noteq> Level Private then filterFiles (deriveAccessLevel k) files
            else Inr files) = Inr kept
         \<and> existingPathsOf kept = Inr ps
         \<and> somePathIncludes ps (dailyFile (deriveAccessLevel k) t) = Inr hasToday
         \<and> somePathIncludes ps (dailyFile (deriveAccessLevel k) y) = Inr hasYesterday
         \<and> out = kept
             @ (if hasToday then []
                else [FileObject (join dir (dailyFile (deriveAccessLevel k) t)) ''memory''])
             @ (if hasYesterday then []
                else [FileObject (join dir (dailyFile (deriveAccessLevel k) y)) ''memory''])"
  using assms
  by (auto simp: tryBlock_Str split: sum.splits if_splits)

lemma somePathIncludes_False_iff:
  "somePathIncludes ps d = Inr False \<longleftrightarrow> (\<forall>p \<in> set ps. \<exists>q. p = Some q \<and> \<not> str_includes q d)"
  by (induction ps d rule: somePathIncludes.induct) auto

lemma trusted_scenario:
  assumes k: "deriveAccessLevel k = Level Trusted"
    and t: "CHR ''/'' \<notin> set today" and y: "CHR ''/'' \<notin> set yesterday"
  shows "tryBlock (Str k) (Str dir) today yesterday
           [PathString ''memory/private/MEMORY.md'', PathString ''memory/family/notes.md'',
            PathString ''memory/public/info.md'']
         = (None,
            [PathString ''memory/public/info.md'',
             FileObject (join dir (''memory/trusted/'' @ today @ ''-daily.md'')) ''memory'',
             FileObject (join dir (''memory/trusted/'' @ yesterday @ ''-daily.md'')) ''memory''])"
proof -
  have f: "filterFiles (Level Trusted)
             [PathString ''memory/private/MEMORY.md'', PathString ''memory/family/notes.md'',
              PathString ''memory/public/info.md'']
           = Inr [PathString ''memory/public/info.md'']"
    by (simp add: keepFile_def endsWith_def suffix_to_prefix canAccess_def ACCESS_LEVELS_def)
  have d: "dailyFile (Level Trusted) day = ''memory/trusted/'' @ day @ ''-daily.md''"
    if "CHR ''/'' \<notin> set day" for day
    using dailyFile_level [OF that, of Trusted] by simp
  have n: "\<not> str_includes ''memory/public/info.md'' (''memory/trusted/'' @ day @ ''-daily.md'')" for day
    using str_includes_length [of "''memory/public/info.md''" "''memory/trusted/'' @ day @ ''-daily.md''"]
    by auto
  show ?thesis
    using n by (simp add: tryBlock_Str k f d [OF t] d [OF y]
        del: str_includes.simps filterFiles.simps)
qed

lemma filterFiles_no_memory_md:
  assumes "lvl \<noteq> Level Private" "filterFiles lvl files = Inr kept"
  shows "(\<forall>f \<in> set kept. \<forall>p. pathOf f = Inr (Some p) \<longrightarrow> \<not> endsWith p ''MEMORY.md'') \<and> set kept \<subseteq> set files"
  using filterFiles_ok [OF assms(2)]
  by (auto simp: keepFile_def split: sum.splits option.splits if_splits)

lemma tryBlock_no_memory_md:
  assumes lvl: "deriveAccessLevel k \<noteq> Level Private"
    and out: "tryBlock (Str k) (Str dir) t y files = (None, out)"
  shows "\<forall>f \<in> set out. \<forall>p. pathOf f = Inr (Some p) \<longrightarrow> \<not> endsWith p ''MEMORY.md''"
proof -
  let ?T = "FileObject (join dir (dailyFile (deriveAccessLevel k) t)) ''memory''"
  let ?Y = "FileObject (join dir (dailyFile (deriveAccessLevel k) y)) ''memory''"
  from tryBlock_result [OF out] lvl obtain kept hasToday hasYesterday where
    kept: "filterFiles (deriveAccessLevel k) files = Inr kept" and
    o: "out = kept @ (if hasToday then [] else [?T]) @ (if hasYesterday then [] else [?Y])"
    by auto
  have sub: "set out \<subseteq> set kept \<union> {?T, ?Y}"
    unfolding o by (auto split: if_splits)
  from filterFiles_no_memory_md [OF lvl kept] sub
    daily_not_memory [OF join_dailyFile_ends [of dir "deriveAccessLevel k" t]]
    daily_not_memory [OF join_dailyFile_ends [of dir "deriveAccessLevel k" y]]
  show ?thesis by auto
qed

lemma tryBlock_private_keeps:
  assumes "deriveAccessLevel k = Level Private" "tryBlock (Str k) (Str dir) t y files = (None, out)"
  shows "prefix files out"
  using tryBlock_result [OF assms(2)] assms(1) by auto

text \<open>
  Claim C2. With resolved level \<open>trusted\<close> and the candidates
  \<^verbatim>\<open>memory/private/MEMORY.md\<close>, \<^verbatim>\<open>memory/family/notes.md\<close>, \<^verbatim>\<open>memory/public/info.md\<close>, the
  hook leaves exactly \<^verbatim>\<open>memory/public/info.md\<close> followed by the daily notes of today and
  yesterday under \<^verbatim>\<open>memory/trusted\<close> (for dates without a slash, as ISO dates are). In
  general, when the block completes, the list is the kept candidates followed by each
  daily note exactly when no path of the kept candidates includes its relative path.
\<close>

theorem bootstrap_filter_trusted:
  "(deriveAccessLevel k = Level Trusted \<and> CHR ''/'' \<notin> set today \<and> CHR ''/'' \<notin> set yesterday \<longrightarrow>
      tryBlock (Str k) (Str dir) today yesterday
        [PathString ''memory/private/MEMORY.md'', PathString ''memory/family/notes.md'',
         PathString ''memory/public/info.md'']
      = (None,
         [PathString ''memory/public/info.md'',
          FileObject (join dir (''memory/trusted/'' @ today @ ''-daily.md'')) ''memory'',
          FileObject (join dir (''memory/trusted/'' @ yesterday @ ''-daily.md'')) ''memory'']))
   \<and> (tryBlock (Str k) (Str dir) today yesterday files = (None, out) \<longrightarrow>
        (\<exists>kept ps.
           (if deriveAccessLevel k \<noteq> Level Private then filterFiles (deriveAccessLevel k) files
            else Inr files) = Inr kept
         \<and> existingPathsOf kept = Inr ps
         \<and> out = kept
             @ (if \<forall>p \<in> set ps. \<exists>q. p = Some q \<and> \<not> str_includes q (dailyFile (deriveAccessLevel k) today)
                then [FileObject (join dir (dailyFile (deriveAccessLevel k) today)) ''memory'']
                else [])
             @ (if \<forall>p \<in> set ps. \<exists>q. p = Some q \<and> \<not> str_includes q (dailyFile (deriveAccessLevel k) yesterday)
                then [FileObject (join dir (dailyFile (deriveAccessLevel k) yesterday)) ''memory'']
                else [])))"
proof (intro conjI impI)
  assume "deriveAccessLevel k = Level Trusted \<and> CHR ''/'' \<notin> set today \<and> CHR ''/'' \<notin> set yesterday"
  then show "tryBlock (Str k) (Str dir) today yesterday
        [PathString ''memory/private/MEMORY.md'', PathString ''memory/family/notes.md'',
         PathString ''memory/public/info.md'']
      = (None,
         [PathString ''memory/public/info.md'',
          FileObject (join dir (''memory/trusted/'' @ today @ ''-daily.md'')) ''memory'',
          FileObject (join dir (''memory/trusted/'' @ yesterday @ ''-daily.md'')) ''memory''])"
    using trusted_scenario by blast
next
  assume "tryBlock (Str k) (Str dir) today yesterday files = (None, out)"
  from tryBlock_result [OF this] obtain kept ps hasToday hasYesterday where
    r: "(if deriveAccessLevel k \<noteq> Level Private then filterFiles (deriveAccessLevel k) files
         else Inr files) = Inr kept"
       "existingPathsOf kept = Inr ps"
       "somePathIncludes ps (dailyFile (deriveAccessLevel k) today) = Inr hasToday"
       "somePathIncludes ps (dailyFile (deriveAccessLevel k) yesterday) = Inr hasYesterday"
       "out = kept
          @ (if hasToday then [] else [FileObject (join dir (dailyFile (deriveAccessLevel k) today)) ''memory''])
          @ (if hasYesterday then [] else [FileObject (join dir (dailyFile (deriveAccessLevel k) yesterday)) ''memory''])"
    by blast
  have t: "(\<forall>p \<in> set ps. \<exists>q. p = Some q \<and> \<not> str_includes q (dailyFile (deriveAccessLevel k) today)) = (\<not> hasToday)"
    using somePathIncludes_False_iff [of ps "dailyFile (deriveAccessLevel k) today"] r(3) by simp
  have y: "(\<forall>p \<in> set ps. \<exists>q. p = Some q \<and> \<not> str_includes q (dailyFile (deriveAccessLevel k) yesterday)) = (\<not> hasYesterday)"
    using somePathIncludes_False_iff [of ps "dailyFile (deriveAccessLevel k) yesterday"] r(4) by simp
  show "\<exists>kept ps.
           (if deriveAccessLevel k \<noteq> Level Private then filterFiles (deriveAccessLevel k) files
            else Inr files) = Inr kept
         \<and> existingPathsOf kept = Inr ps
         \<and> out = kept
             @ (if \<forall>p \<in> set ps. \<exists>q. p = Some q \<and> \<not> str_includes q (dailyFile (deriveAccessLevel k) today)
                then [FileObject (join dir (dailyFile (deriveAccessLevel k) today)) ''memory'']
                else [])
             @ (if \<forall>p \<in> set ps. \<exists>q. p = Some q \<and> \<not> str_includes q (dailyFile (deriveAccessLevel k) yesterday)
                then [FileObject (join dir (dailyFile (deriveAccessLevel k) yesterday)) ''memory'']
                else [])"
    by (rule exI [of _ kept], rule exI [of _ ps]) (simp only: t y r(1,2,5) if_not_P if_P not_not split: if_splits, simp)
qed

lemma group_key: "deriveAccessLevel ''agent:main:telegram:group:42'' = Level Trusted"
  by (simp add: deriveAccessLevel_def splitOn_def at_index_def)

lemma main_key: "deriveAccessLevel ''agent:main:main'' = Level Private"
  by (simp add: deriveAccessLevel_def)

lemma join_ws_trusted:
  "join ''/ws'' ''memory/trusted/2026-02-05-daily.md'' = ''/ws/memory/trusted/2026-02-05-daily.md''"
  "join ''/ws'' ''memory/trusted/2026-02-04-daily.md'' = ''/ws/memory/trusted/2026-02-04-daily.md''"
  by (simp_all add: join_def normalizePath_def splitOn_def)

theorem bootstrap_filter_trusted_witness:
  "tryBlock (Str ''agent:main:telegram:group:42'') (Str ''/ws'') ''2026-02-05'' ''2026-02-04''
     [PathString ''memory/private/MEMORY.md'', PathString ''memory/family/notes.md'',
      PathString ''memory/public/info.md'']
   = (None,
      [PathString ''memory/public/info.md'',
       FileObject ''/ws/memory/trusted/2026-02-05-daily.md'' ''memory'',
       FileObject ''/ws/memory/trusted/2026-02-04-daily.md'' ''memory''])
   \<and> tryBlock (Str ''agent:main:telegram:group:42'') (Str ''/ws'') ''2026-02-05'' ''2026-02-04''
       [PathString ''/ws/memory/trusted/2026-02-05-daily.md'']
     = (None,
        [PathString ''/ws/memory/trusted/2026-02-05-daily.md'',
         FileObject ''/ws/memory/trusted/2026-02-04-daily.md'' ''memory''])"
proof -
  let ?k = "''agent:main:telegram:group:42''"
  let ?f = "PathString ''/ws/memory/trusted/2026-02-05-daily.md''"
  have d: "dailyFile (Level Trusted) ''2026-02-05'' = ''memory/trusted/2026-02-05-daily.md''"
    "dailyFile (Level Trusted) ''2026-02-04'' = ''memory/trusted/2026-02-04-daily.md''"
    using dailyFile_level [of "''2026-02-05''" Trusted] dailyFile_level [of "''2026-02-04''" Trusted]
    by simp_all
  have f: "filterFiles (Level Trusted) [?f] = Inr [?f]"
    by (simp add: keepFile_def endsWith_def suffix_to_prefix)
  have run: "tryBlock (Str ?k) (Str ''/ws'') ''2026-02-05'' ''2026-02-04'' [?f]
     = (None, [?f, FileObject ''/ws/memory/trusted/2026-02-04-daily.md'' ''memory''])"
    by (simp add: tryBlock_Str group_key f d join_ws_trusted del: filterFiles.simps)
  from bootstrap_filter_trusted [of ?k "''2026-02-05''" "''2026-02-04''" "''/ws''"] group_key
  have 1: "tryBlock (Str ?k) (Str ''/ws'') ''2026-02-05'' ''2026-02-04''
     [PathString ''memory/private/MEMORY.md'', PathString ''memory/family/notes.md'',
      PathString ''memory/public/info.md'']
   = (None,
      [PathString ''memory/public/info.md'',
       FileObject ''/ws/memory/trusted/2026-02-05-daily.md'' ''memory'',
       FileObject ''/ws/memory/trusted/2026-02-04-daily.md'' ''memory''])"
    by (simp add: join_ws_trusted)
  from 1 run show ?thesis by (rule conjI)
qed

lemma tryBlock_join_raises:
  assumes lvl: "deriveAccessLevel s \<noteq> Level Private"
    and kept: "filterFiles (deriveAccessLevel s) files = Inr kept"
    and dir: "\<forall>d. dir \<noteq> Str d"
    and ps: "existingPathsOf kept = Inr ps"
    and missing: "somePathIncludes ps (dailyFile (deriveAccessLevel s) today) = Inr False
                  \<or> somePathIncludes ps (dailyFile (deriveAccessLevel s) yesterday) = Inr False"
  shows "tryBlock (Str s) dir today yesterday files = (Some TypeError, kept)"
proof -
  from filterFiles_ok [OF kept] have wf: "\<forall>f \<in> set kept. \<exists>p. pathOf f = Inr (Some p)"
    by auto
  from existingPathsOf_ok [OF wf] ps obtain qs where qs: "ps = map Some qs" by auto
  have push: "pushDaily dir daily fs = Inl TypeError" for daily fs
    using dir by (cases dir) (simp_all add: pushDaily_def)
  from missing show ?thesis
    using lvl kept ps
    by (auto simp: tryBlock_def levelOf_def Let_def qs somePathIncludes_ok push)
qed

lemma group_raise:
  "tryBlock (Str ''agent:main:telegram:group:42'') NotAString ''2026-02-05'' ''2026-02-04''
     [PathString ''MEMORY.md'', PathString ''memory/public/info.md'']
   = (Some TypeError, [PathString ''memory/public/info.md''])"
proof -
  have f: "filterFiles (Level Trusted) [PathString ''MEMORY.md'', PathString ''memory/public/info.md'']
           = Inr [PathString ''memory/public/info.md'']"
    by (simp add: keepFile_def endsWith_def suffix_to_prefix canAccess_def ACCESS_LEVELS_def)
  have n: "\<not> str_includes ''memory/public/info.md'' (dailyFile (Level Trusted) ''2026-02-05'')"
    using dailyFile_level [of "''2026-02-05''" Trusted]
      str_includes_length [of "''memory/public/info.md''" "dailyFile (Level Trusted) ''2026-02-05''"]
    by auto
  show ?thesis
    using tryBlock_join_raises [of "''agent:main:telegram:group:42''"
        "[PathString ''MEMORY.md'', PathString ''memory/public/info.md'']"
        "[PathString ''memory/public/info.md'']" NotAString "[Some ''memory/public/info.md'']"
        "''2026-02-05''" "''2026-02-04''"] f n
    by (simp add: group_key del: filterFiles.simps str_includes.simps)
qed

lemma handler_runs:
  assumes "evType event = ''agent''" "evAction event = ''bootstrap''"
    "evContext event = Some context" "isTruthy (workspaceDir context)"
    "bootstrapFiles context = Some files"
  shows "handler today yesterday event
         = Inr (Some (context\<lparr>bootstrapFiles :=
              Some (snd (tryBlock (sessionKeyOf event context) (workspaceDir context)
                           today yesterday files))\<rparr>))"
  using assms by (simp add: handler_def Let_def split: prod.splits option.splits)

text \<open>
  Claim C7. An exception raised in the \<^verbatim>\<open>try\<close> block never reaches the host: the handler
  catches it and returns the context. The list the host goes on with is the one it
  supplied when the exception comes from resolving the level, from \<^verbatim>\<open>filter\<close> or from
  the look at the paths already there (a session key that is not a string, an ill-formed
  entry): always so when \<^verbatim>\<open>workspaceDir\<close> is a string. It is not the one it supplied when
  \<^verbatim>\<open>join\<close> raises on a \<^verbatim>\<open>workspaceDir\<close> that is not a string, at a level other than
  \<open>private\<close> with a daily note to add: the filtered list was assigned before, the
  \<^verbatim>\<open>catch\<close> restores nothing, and the host goes on with the filtered list and no daily
  note. For a group session whose \<^verbatim>\<open>workspaceDir\<close> is a number and the candidates
  \<^verbatim>\<open>MEMORY.md\<close> and \<^verbatim>\<open>memory/public/info.md\<close>, the host is left with
  \<^verbatim>\<open>memory/public/info.md\<close> alone. An event without a context makes the handler throw,
  before the \<^verbatim>\<open>try\<close>.
\<close>

theorem handler_error_leaves_filtered_list:
  "handler ''2026-02-05'' ''2026-02-04''
       \<lparr>evType = ''agent'', evAction = ''bootstrap'',
        evSessionKey = Str ''agent:main:telegram:group:42'',
        evContext = Some \<lparr>ctxSessionKey = Undefined, workspaceDir = NotAString,
                      bootstrapFiles = Some [PathString ''MEMORY.md'',
                                             PathString ''memory/public/info.md'']\<rparr>\<rparr>
     = Inr (Some \<lparr>ctxSessionKey = Undefined, workspaceDir = NotAString,
                  bootstrapFiles = Some [PathString ''memory/public/info.md'']\<rparr>)
   \<and> tryBlock (Str ''agent:main:telegram:group:42'') NotAString ''2026-02-05'' ''2026-02-04''
        [PathString ''MEMORY.md'', PathString ''memory/public/info.md'']
     = (Some TypeError, [PathString ''memory/public/info.md''])
   \<and> (deriveAccessLevel s \<noteq> Level Private
        \<and> filterFiles (deriveAccessLevel s) files = Inr kept
        \<and> (\<forall>d. dir \<noteq> Str d)
        \<and> existingPathsOf kept = Inr ps
        \<and> (somePathIncludes ps (dailyFile (deriveAccessLevel s) today) = Inr False
             \<or> somePathIncludes ps (dailyFile (deriveAccessLevel s) yesterday) = Inr False) \<longrightarrow>
        tryBlock (Str s) dir today yesterday files = (Some TypeError, kept))
   \<and> (evType event = ''agent'' \<and> evAction event = ''bootstrap''
        \<and> evContext event = Some context \<and> isTruthy (workspaceDir context)
        \<and> bootstrapFiles context = Some files \<longrightarrow>
        handler today yesterday event
          = Inr (Some (context\<lparr>bootstrapFiles :=
               Some (snd (tryBlock (sessionKeyOf event context) (workspaceDir context)
                            today yesterday files))\<rparr>)))
   \<and> (tryBlock k dir today yesterday files = (Some e, out) \<longrightarrow>
        out = files
        \<or> (\<exists>s. k = Str s \<and> deriveAccessLevel s \<noteq> Level Private \<and> (\<forall>d. dir \<noteq> Str d)
                \<and> filterFiles (deriveAccessLevel s) files = Inr out))
   \<and> (tryBlock k (Str d) today yesterday files = (Some e, out) \<longrightarrow> out = files)
   \<and> (evType event = ''agent'' \<and> evAction event = ''bootstrap'' \<and> evContext event = None \<longrightarrow>
        handler today yesterday event = Inl TypeError)"
proof (intro conjI impI)
  show "tryBlock (Str ''agent:main:telegram:group:42'') NotAString ''2026-02-05'' ''2026-02-04''
        [PathString ''MEMORY.md'', PathString ''memory/public/info.md'']
     = (Some TypeError, [PathString ''memory/public/info.md''])"
    by (rule group_raise)
  show "handler ''2026-02-05'' ''2026-02-04''
       \<lparr>evType = ''agent'', evAction = ''bootstrap'',
        evSessionKey = Str ''agent:main:telegram:group:42'',
        evContext = Some \<lparr>ctxSessionKey = Undefined, workspaceDir = NotAString,
                      bootstrapFiles = Some [PathString ''MEMORY.md'',
                                             PathString ''memory/public/info.md'']\<rparr>\<rparr>
     = Inr (Some \<lparr>ctxSessionKey = Undefined, workspaceDir = NotAString,
                  bootstrapFiles = Some [PathString ''memory/public/info.md'']\<rparr>)"
    by (simp add: handler_def Let_def sessionKeyOf_def orElse_def group_raise)
next
  assume "deriveAccessLevel s \<noteq> Level Private
        \<and> filterFiles (deriveAccessLevel s) files = Inr kept
        \<and> (\<forall>d. dir \<noteq> Str d)
        \<and> existingPathsOf kept = Inr ps
        \<and> (somePathIncludes ps (dailyFile (deriveAccessLevel s) today) = Inr False
             \<or> somePathIncludes ps (dailyFile (deriveAccessLevel s) yesterday) = Inr False)"
  then show "tryBlock (Str s) dir today yesterday files = (Some TypeError, kept)"
    using tryBlock_join_raises [of s files kept dir ps today yesterday] by blast
next
  assume "evType event = ''agent'' \<and> evAction event = ''bootstrap''
        \<and> evContext event = Some context \<and> isTruthy (workspaceDir context)
        \<and> bootstrapFiles context = Some files"
  then show "handler today yesterday event
          = Inr (Some (context\<lparr>bootstrapFiles :=
               Some (snd (tryBlock (sessionKeyOf event context) (workspaceDir context)
                            today yesterday files))\<rparr>))"
    using handler_runs [of event "context" files today yesterday] by blast
next
  assume "tryBlock k dir today yesterday files = (Some e, out)"
  then show "out = files
        \<or> (\<exists>s. k = Str s \<and> deriveAccessLevel s \<noteq> Level Private \<and> (\<forall>d. dir \<noteq> Str d)
                \<and> filterFiles (deriveAccessLevel s) files = Inr out)"
    by (rule tryBlock_raise)
next
  assume "tryBlock k (Str d) today yesterday files = (Some e, out)"
  then show "out = files" by (rule tryBlock_error_unchanged)
next
  assume "evType event = ''agent'' \<and> evAction event = ''bootstrap'' \<and> evContext event = None"
  then show "handler today yesterday event = Inl TypeError"
    by (simp add: handler_def)
qed

lemma dm_key: "deriveAccessLevel ''agent:main:telegram:dm:7'' = Level Public"
  by (simp add: deriveAccessLevel_def splitOn_def at_index_def getProperty_def USER_ACCESS_MAP_def
      OBJECT_PROTOTYPE_def)

theorem handler_error_leaves_filtered_list_witness:
  "handler ''2026-02-05'' ''2026-02-04''
       \<lparr>evType = ''agent'', evAction = ''bootstrap'',
        evSessionKey = Str ''agent:main:telegram:group:42'',
        evContext = Some \<lparr>ctxSessionKey = Undefined, workspaceDir = Str ''/ws'',
                      bootstrapFiles = Some [PathString ''MEMORY.md'', NullEntry]\<rparr>\<rparr>
     = Inr (Some \<lparr>ctxSessionKey = Undefined, workspaceDir = Str ''/ws'',
                  bootstrapFiles = Some [PathString ''MEMORY.md'', NullEntry]\<rparr>)
   \<and> handler ''2026-02-05'' ''2026-02-04''
       \<lparr>evType = ''agent'', evAction = ''bootstrap'', evSessionKey = Undefined,
        evContext = Some \<lparr>ctxSessionKey = NotAString, workspaceDir = Str ''/ws'',
                      bootstrapFiles = Some [PathString ''MEMORY.md'']\<rparr>\<rparr>
     = Inr (Some \<lparr>ctxSessionKey = NotAString, workspaceDir = Str ''/ws'',
                  bootstrapFiles = Some [PathString ''MEMORY.md'']\<rparr>)
   \<and> tryBlock (Str ''agent:main:telegram:dm:7'') NotAString ''2026-02-05'' ''2026-02-04''
        [PathString ''memory/family/notes.md'', PathString ''README.md'']
     = (Some TypeError, [PathString ''README.md''])
   \<and> handler ''2026-02-05'' ''2026-02-04''
       \<lparr>evType = ''agent'', evAction = ''bootstrap'', evSessionKey = Str ''agent:main:main'',
        evContext = None\<rparr>
     = Inl TypeError"
proof -
  let ?ctx1 = "\<lparr>ctxSessionKey = Undefined, workspaceDir = Str ''/ws'',
                 bootstrapFiles = Some [PathString ''MEMORY.md'', NullEntry]\<rparr>"
  let ?ev1 = "\<lparr>evType = ''agent'', evAction = ''bootstrap'',
                evSessionKey = Str ''agent:main:telegram:group:42'', evContext = Some ?ctx1\<rparr>"
  let ?ctx2 = "\<lparr>ctxSessionKey = NotAString, workspaceDir = Str ''/ws'',
                 bootstrapFiles = Some [PathString ''MEMORY.md'']\<rparr>"
  let ?ev2 = "\<lparr>evType = ''agent'', evAction = ''bootstrap'', evSessionKey = Undefined,
                evContext = Some ?ctx2\<rparr>"
  let ?ev3 = "\<lparr>evType = ''agent'', evAction = ''bootstrap'', evSessionKey = Str ''agent:main:main'',
                evContext = None\<rparr>"
  have k1: "sessionKeyOf ?ev1 ?ctx1 = Str ''agent:main:telegram:group:42''"
    and k2: "sessionKeyOf ?ev2 ?ctx2 = NotAString"
    by (simp_all add: sessionKeyOf_def orElse_def)
  have r1: "fst (tryBlock (Str ''agent:main:telegram:group:42'') (Str ''/ws'') ''2026-02-05''
                   ''2026-02-04'' [PathString ''MEMORY.md'', NullEntry]) = Some TypeError"
    by (simp add: tryBlock_def levelOf_def group_key keepFile_def)
  have r2: "fst (tryBlock NotAString (Str ''/ws'') ''2026-02-05'' ''2026-02-04''
                   [PathString ''MEMORY.md'']) = Some TypeError"
    by (simp add: tryBlock_def levelOf_def)
  note unchanged = handler_error_leaves_filtered_list
      [THEN conjunct2, THEN conjunct2, THEN conjunct2, THEN conjunct2, THEN conjunct2,
       THEN conjunct1, rule_format]
  have s1: "snd (tryBlock (Str ''agent:main:telegram:group:42'') (Str ''/ws'') ''2026-02-05''
                   ''2026-02-04'' [PathString ''MEMORY.md'', NullEntry])
            = [PathString ''MEMORY.md'', NullEntry]"
    using unchanged [of "Str ''agent:main:telegram:group:42''" "''/ws''" "''2026-02-05''"
        "''2026-02-04''" "[PathString ''MEMORY.md'', NullEntry]" TypeError] r1
    by (metis prod.collapse)
  have s2: "snd (tryBlock NotAString (Str ''/ws'') ''2026-02-05'' ''2026-02-04''
                   [PathString ''MEMORY.md'']) = [PathString ''MEMORY.md'']"
    using unchanged [of NotAString "''/ws''" "''2026-02-05''" "''2026-02-04''"
        "[PathString ''MEMORY.md'']" TypeError] r2
    by (metis prod.collapse)
  note runs = handler_error_leaves_filtered_list
      [THEN conjunct2, THEN conjunct2, THEN conjunct2, THEN conjunct1, rule_format]
  have h1: "handler ''2026-02-05'' ''2026-02-04'' ?ev1 = Inr (Some ?ctx1)"
    using runs [of ?ev1 ?ctx1 "[PathString ''MEMORY.md'', NullEntry]" "''2026-02-05''" "''2026-02-04''"]
    by (simp add: k1 s1)
  have h2: "handler ''2026-02-05'' ''2026-02-04'' ?ev2 = Inr (Some ?ctx2)"
    using runs [of ?ev2 ?ctx2 "[PathString ''MEMORY.md'']" "''2026-02-05''" "''2026-02-04''"]
    by (simp add: k2 s2)
  have f: "filterFiles (Level Public) [PathString ''memory/family/notes.md'', PathString ''README.md'']
           = Inr [PathString ''README.md'']"
    by (simp add: keepFile_def endsWith_def suffix_to_prefix canAccess_def ACCESS_LEVELS_def)
  have n: "\<not> str_includes ''README.md'' (dailyFile (Level Public) ''2026-02-05'')"
    using dailyFile_level [of "''2026-02-05''" Public]
      str_includes_length [of "''README.md''" "dailyFile (Level Public) ''2026-02-05''"]
    by auto
  note raises = handler_error_leaves_filtered_list
      [THEN conjunct2, THEN conjunct2, THEN conjunct1, rule_format]
  have j: "tryBlock (Str ''agent:main:telegram:dm:7'') NotAString ''2026-02-05'' ''2026-02-04''
        [PathString ''memory/family/notes.md'', PathString ''README.md'']
     = (Some TypeError, [PathString ''README.md''])"
    using raises [of "''agent:main:telegram:dm:7''"
        "[PathString ''memory/family/notes.md'', PathString ''README.md'']"
        "[PathString ''README.md'']" NotAString "[Some ''README.md'']" "''2026-02-05''" "''2026-02-04''"]
      f n
    by (simp add: dm_key del: filterFiles.simps str_includes.simps)
  note nocontext = handler_error_leaves_filtered_list
      [THEN conjunct2, THEN conjunct2, THEN conjunct2, THEN conjunct2, THEN conjunct2,
       THEN conjunct2, rule_format]
  have h3: "handler ''2026-02-05'' ''2026-02-04'' ?ev3 = Inl TypeError"
    using nocontext [of ?ev3 "''2026-02-05''" "''2026-02-04''"] by simp
  from h1 h2 j h3 show ?thesis by (intro conjI)
qed

text \<open>
  Claim C10. For a level other than \<open>private\<close> the filter keeps no candidate whose path
  ends with \<^verbatim>\<open>MEMORY.md\<close>, whatever its directory, and the list the hook leaves holds no
  such path at all; a family session loses \<^verbatim>\<open>memory/family/MEMORY.md\<close> while it keeps
  \<^verbatim>\<open>memory/family/notes.md\<close>. For a private session every candidate stays, in place, at
  the front of the list.
\<close>

theorem memory_md_excluded:
  "(lvl \<noteq> Level Private \<and> filterFiles lvl files = Inr kept \<longrightarrow>
      (\<forall>f \<in> set kept. \<forall>p. pathOf f = Inr (Some p) \<longrightarrow> \<not> endsWith p ''MEMORY.md'')
      \<and> set kept \<subseteq> set files)
   \<and> (deriveAccessLevel k \<noteq> Level Private \<and> (\<forall>f \<in> set files. \<exists>p. pathOf f = Inr (Some p)) \<longrightarrow>
        (\<exists>out. tryBlock (Str k) (Str dir) today yesterday files = (None, out)
           \<and> (\<forall>f \<in> set out. \<forall>p. pathOf f = Inr (Some p) \<longrightarrow> \<not> endsWith p ''MEMORY.md'')))
   \<and> keepFile (Level Family) (PathString ''memory/family/MEMORY.md'') = Inr False
   \<and> keepFile (Level Family) (PathString ''memory/family/notes.md'') = Inr True
   \<and> (deriveAccessLevel k = Level Private \<and> (\<forall>f \<in> set files. \<exists>p. pathOf f = Inr (Some p)) \<longrightarrow>
        (\<exists>out. tryBlock (Str k) (Str dir) today yesterday files = (None, out) \<and> prefix files out))"
proof (intro conjI impI)
  assume "lvl \<noteq> Level Private \<and> filterFiles lvl files = Inr kept"
  then show "\<forall>f \<in> set kept. \<forall>p. pathOf f = Inr (Some p) \<longrightarrow> \<not> endsWith p ''MEMORY.md''"
    and "set kept \<subseteq> set files"
    using filterFiles_no_memory_md [of lvl files kept] by blast+
next
  assume a: "deriveAccessLevel k \<noteq> Level Private \<and> (\<forall>f \<in> set files. \<exists>p. pathOf f = Inr (Some p))"
  then obtain out where out: "tryBlock (Str k) (Str dir) today yesterday files = (None, out)"
    using tryBlock_well_formed [of files k dir today yesterday] by blast
  with a tryBlock_no_memory_md [OF _ out]
  show "\<exists>out. tryBlock (Str k) (Str dir) today yesterday files = (None, out)
           \<and> (\<forall>f \<in> set out. \<forall>p. pathOf f = Inr (Some p) \<longrightarrow> \<not> endsWith p ''MEMORY.md'')"
    by blast
next
  show "keepFile (Level Family) (PathString ''memory/family/MEMORY.md'') = Inr False"
    by (simp add: keepFile_def endsWith_def suffix_to_prefix)
next
  show "keepFile (Level Family) (PathString ''memory/family/notes.md'') = Inr True"
    by (simp add: keepFile_def endsWith_def suffix_to_prefix canAccess_def ACCESS_LEVELS_def)
next
  assume a: "deriveAccessLevel k = Level Private \<and> (\<forall>f \<in> set files. \<exists>p. pathOf f = Inr (Some p))"
  then obtain out where out: "tryBlock (Str k) (Str dir) today yesterday files = (None, out)"
    using tryBlock_well_formed [of files k dir today yesterday] by blast
  with a tryBlock_private_keeps [OF _ out]
  show "\<exists>out. tryBlock (Str k) (Str dir) today yesterday files = (None, out) \<and> prefix files out"
    by blast
qed

theorem memory_md_excluded_witness:
  "tryBlock (Str ''agent:main:telegram:group:42'') (Str ''/ws'') ''2026-02-05'' ''2026-02-04''
     [PathString ''MEMORY.md'', FileObject ''memory/family/MEMORY.md'' ''memory'',
      PathString ''memory/public/info.md'']
   = (None,
      [PathString ''memory/public/info.md'',
       FileObject ''/ws/memory/trusted/2026-02-05-daily.md'' ''memory'',
       FileObject ''/ws/memory/trusted/2026-02-04-daily.md'' ''memory''])
   \<and> tryBlock (Str ''agent:main:main'') (Str ''/ws'') ''2026-02-05'' ''2026-02-04''
     [PathString ''MEMORY.md'', PathString ''/ws/memory/private/2026-02-05-daily.md'']
   = (None,
      [PathString ''MEMORY.md'', PathString ''/ws/memory/private/2026-02-05-daily.md'',
       FileObject ''/ws/memory/private/2026-02-04-daily.md'' ''memory''])"
proof -
  let ?fs = "[PathString ''MEMORY.md'', FileObject ''memory/family/MEMORY.md'' ''memory'',
      PathString ''memory/public/info.md'']"
  have f: "filterFiles (Level Trusted) ?fs = Inr [PathString ''memory/public/info.md'']"
    by (simp add: keepFile_def endsWith_def suffix_to_prefix canAccess_def ACCESS_LEVELS_def)
  have d: "dailyFile (Level l) ''2026-02-05'' = ''memory/'' @ levelName l @ ''/2026-02-05-daily.md''"
     "dailyFile (Level l) ''2026-02-04'' = ''memory/'' @ levelName l @ ''/2026-02-04-daily.md''" for l
    using dailyFile_level [of "''2026-02-05''" l] dailyFile_level [of "''2026-02-04''" l] by simp_all
  have j: "join ''/ws'' ''memory/private/2026-02-04-daily.md'' = ''/ws/memory/private/2026-02-04-daily.md''"
    by (simp add: join_def normalizePath_def splitOn_def)
  have 1: "tryBlock (Str ''agent:main:telegram:group:42'') (Str ''/ws'') ''2026-02-05'' ''2026-02-04'' ?fs
     = (None,
      [PathString ''memory/public/info.md'',
       FileObject ''/ws/memory/trusted/2026-02-05-daily.md'' ''memory'',
       FileObject ''/ws/memory/trusted/2026-02-04-daily.md'' ''memory''])"
    by (simp add: tryBlock_Str group_key f d join_ws_trusted del: filterFiles.simps)
  have 2: "tryBlock (Str ''agent:main:main'') (Str ''/ws'') ''2026-02-05'' ''2026-02-04''
     [PathString ''MEMORY.md'', PathString ''/ws/memory/private/2026-02-05-daily.md'']
   = (None,
      [PathString ''MEMORY.md'', PathString ''/ws/memory/private/2026-02-05-daily.md'',
       FileObject ''/ws/memory/private/2026-02-04-daily.md'' ''memory''])"
    by (simp add: tryBlock_Str main_key d j)
  show ?thesis
    using memory_md_excluded [of "Level Trusted" ?fs "[PathString ''memory/public/info.md'']"
        "''agent:main:telegram:group:42''" "''/ws''" "''2026-02-05''" "''2026-02-04''"] 1 2
    by simp
qed

section \<open>Properties of the logs and of the tools\<close>

lemma map_of_mapSet: "map_of (mapSet m k v) = (map_of m)(k \<mapsto> v)"
  by (induction m k v rule: mapSet.induct) (auto simp: fun_eq_iff)

lemma keys_mapSet: "set (map fst (mapSet m k v)) = insert k (set (map fst m))"
  by (induction m k v rule: mapSet.induct) auto

lemma distinct_mapSet: "distinct (map fst m) \<Longrightarrow> distinct (map fst (mapSet m k v))"
proof (induction m k v rule: mapSet.induct)
  case (1 key v)
  then show ?case by simp
next
  case (2 k old entries key v)
  then show ?case
    using keys_mapSet [of entries key v] by auto
qed

lemma set_mapSet: "set (mapSet m k v) \<subseteq> insert (k, v) (set m)"
  by (induction m k v rule: mapSet.induct) auto

lemma keyed_mapSet: "keyed m \<Longrightarrow> keyed (mapSet m (task_id t) t)"
  unfolding keyed_def using set_mapSet [of m "task_id t" t] distinct_mapSet [of m "task_id t" t]
  by auto

lemma keyed_fold: "keyed m \<Longrightarrow> keyed (fold (\<lambda>task taskMap. mapSet taskMap (task_id task) task) ts m)"
  by (induction ts arbitrary: m) (auto simp: keyed_mapSet)

lemma find_app:
  "find P (xs @ ys) = (case find P xs of None \<Rightarrow> find P ys | Some x \<Rightarrow> Some x)"
  by (induction xs) auto

lemma map_of_fold:
  "map_of (fold (\<lambda>task taskMap. mapSet taskMap (task_id task) task) ts m) i =
     (case find (\<lambda>t. task_id t = i) (rev ts) of Some t \<Rightarrow> Some t | None \<Rightarrow> map_of m i)"
proof (induction ts arbitrary: m)
  case Nil
  then show ?case by simp
next
  case (Cons t ts)
  show ?case
    by (simp add: Cons.IH map_of_mapSet find_app split: option.splits)
qed

lemma find_keyed: "keyed m \<Longrightarrow> find (\<lambda>t. task_id t = i) (map snd m) = map_of m i"
proof (induction m)
  case Nil
  then show ?case by simp
next
  case (Cons a m)
  then have "keyed m" by (auto simp: keyed_def)
  with Cons show ?case by (cases a) (auto simp: keyed_def)
qed

lemma getLatestTasks_find:
  "find (\<lambda>t. task_id t = i) (getLatestTasks tasks) = find (\<lambda>t. task_id t = i) (rev tasks)"
proof -
  have k: "keyed (fold (\<lambda>task taskMap. mapSet taskMap (task_id task) task) tasks [])"
    by (rule keyed_fold) (simp add: keyed_def)
  show ?thesis
    unfolding getLatestTasks_def find_keyed [OF k] map_of_fold
    by (simp split: option.splits)
qed

lemma getLatestTasks_distinct: "distinct (map task_id (getLatestTasks tasks))"
proof -
  let ?m = "fold (\<lambda>task taskMap. mapSet taskMap (task_id task) task) tasks []"
  have k: "keyed ?m" by (rule keyed_fold) (simp add: keyed_def)
  then have eq: "map (task_id \<circ> snd) ?m = map fst ?m"
    by (auto simp: keyed_def)
  have d: "distinct (map fst ?m)" using k by (simp add: keyed_def)
  show ?thesis by (simp only: getLatestTasks_def map_map eq d)
qed

lemma updateTaskStatus_appends:
  assumes "updateTaskStatus stringify now tasksPath taskId newStatus tasks fs = (Inr (), fs')"
  shows "\<exists>task. find (\<lambda>t. task_id t = taskId) tasks = Some task
           \<and> task_id (updatedTask now task newStatus) = taskId
           \<and> task_status (updatedTask now task newStatus) = newStatus
           \<and> file_at fs' tasksPath =
               Some ((case file_at fs tasksPath of None \<Rightarrow> [] | Some old \<Rightarrow> old)
                     @ stringify (updatedTask now task newStatus) @ [LF])
           \<and> (\<forall>p. p \<noteq> tasksPath \<longrightarrow> file_at fs' p = file_at fs p)"
proof (cases "find (\<lambda>t. task_id t = taskId) tasks")
  case None
  with assms show ?thesis by (simp add: updateTaskStatus_def)
next
  case (Some task)
  then have "task_id task = taskId" by (auto simp: find_Some_iff)
  with assms Some show ?thesis
    by (auto simp: updateTaskStatus_def appendFile_def updatedTask_def Let_def
        split: if_splits option.splits)
qed

lemma updateTaskStatus_not_found:
  "find (\<lambda>t. task_id t = taskId) tasks = None \<Longrightarrow>
     updateTaskStatus stringify now tasksPath taskId newStatus tasks fs
       = (Inl (Error (''Task not found: '' @ taskId)), fs)"
  by (simp add: updateTaskStatus_def)

lemma list_scenario:
  assumes "task_id a = ''t1''" "task_status a = ''pending''"
    "task_id b = ''t1''" "task_status b = ''completed''"
  shows "listTasks [a, b] (Some ''pending'') = [] \<and> listTasks [a, b] (Some ''completed'') = [b]"
  using assms by (simp add: listTasks_def getLatestTasks_def filterByStatus_def)

lemma parseLines_eq: "parseLines parse ls = map the (filter (\<lambda>r. r \<noteq> None) (map parse ls))"
  by (induction ls) (auto split: option.splits)

lemma parseLines_length: "length (parseLines parse ls) = length (filter (\<lambda>l. parse l \<noteq> None) ls)"
  by (induction ls) (auto split: option.splits)

lemma parseAll_cases:
  "parseAll parse ls =
     (if \<exists>l \<in> set ls. parse l = None then Inl SyntaxError else Inr (map (the \<circ> parse) ls))"
  by (induction ls) (auto split: option.splits sum.splits)

lemma parseAll_Inl: "(\<exists>l \<in> set ls. parse l = None) \<Longrightarrow> parseAll parse ls = Inl SyntaxError"
  by (simp add: parseAll_cases)

lemma parseAll_Inr: "(\<forall>l \<in> set ls. parse l \<noteq> None) \<Longrightarrow> parseAll parse ls = Inr (map (the \<circ> parse) ls)"
  by (simp add: parseAll_cases)

text \<open>
  Claim C3. For every log and every id, \<^verbatim>\<open>getLatestTasks\<close> holds for that id the record at
  the latest position among the records with that id (the creation time plays no role),
  and holds each id once. A status update that succeeds appends one line to the log, a
  record with the same id and the new status, and changes nothing else; after two such
  updates both lines are in the file, in order, behind the former content. For the log
  \<^verbatim>\<open>[{id: t1, status: pending}, {id: t1, status: completed}]\<close> the listing filtered by
  \<^verbatim>\<open>pending\<close> is empty and filtered by \<^verbatim>\<open>completed\<close> is the later record alone.
\<close>

theorem latest_by_position:
  "find (\<lambda>t. task_id t = i) (getLatestTasks tasks) = find (\<lambda>t. task_id t = i) (rev tasks)
   \<and> distinct (map task_id (getLatestTasks tasks))
   \<and> (updateTaskStatus stringify now tasksPath taskId newStatus known fs = (Inr (), fs') \<longrightarrow>
        (\<exists>task. find (\<lambda>t. task_id t = taskId) known = Some task
           \<and> task_id (updatedTask now task newStatus) = taskId
           \<and> task_status (updatedTask now task newStatus) = newStatus
           \<and> file_at fs' tasksPath =
               Some ((case file_at fs tasksPath of None \<Rightarrow> [] | Some old \<Rightarrow> old)
                     @ stringify (updatedTask now task newStatus) @ [LF])
           \<and> (\<forall>p. p \<noteq> tasksPath \<longrightarrow> file_at fs' p = file_at fs p)))
   \<and> (file_at fs tasksPath = Some old
        \<and> updateTaskStatus stringify now1 tasksPath taskId s1 known1 fs = (Inr (), fs1)
        \<and> updateTaskStatus stringify now2 tasksPath taskId s2 known2 fs1 = (Inr (), fs2) \<longrightarrow>
        (\<exists>a b. task_id a = taskId \<and> task_id b = taskId \<and> task_status a = s1 \<and> task_status b = s2
           \<and> file_at fs2 tasksPath = Some (old @ stringify a @ [LF] @ stringify b @ [LF])))
   \<and> (task_id a = ''t1'' \<and> task_status a = ''pending'' \<and> task_id b = ''t1''
        \<and> task_status b = ''completed'' \<longrightarrow>
        listTasks [a, b] (Some ''pending'') = [] \<and> listTasks [a, b] (Some ''completed'') = [b])"
proof (intro conjI impI)
  show "find (\<lambda>t. task_id t = i) (getLatestTasks tasks) = find (\<lambda>t. task_id t = i) (rev tasks)"
    by (rule getLatestTasks_find)
  show "distinct (map task_id (getLatestTasks tasks))"
    by (rule getLatestTasks_distinct)
next
  assume "updateTaskStatus stringify now tasksPath taskId newStatus known fs = (Inr (), fs')"
  then show "\<exists>task. find (\<lambda>t. task_id t = taskId) known = Some task
           \<and> task_id (updatedTask now task newStatus) = taskId
           \<and> task_status (updatedTask now task newStatus) = newStatus
           \<and> file_at fs' tasksPath =
               Some ((case file_at fs tasksPath of None \<Rightarrow> [] | Some old \<Rightarrow> old)
                     @ stringify (updatedTask now task newStatus) @ [LF])
           \<and> (\<forall>p. p \<noteq> tasksPath \<longrightarrow> file_at fs' p = file_at fs p)"
    by (rule updateTaskStatus_appends)
next
  assume a: "file_at fs tasksPath = Some old
        \<and> updateTaskStatus stringify now1 tasksPath taskId s1 known1 fs = (Inr (), fs1)
        \<and> updateTaskStatus stringify now2 tasksPath taskId s2 known2 fs1 = (Inr (), fs2)"
  from a updateTaskStatus_appends [of stringify now1 tasksPath taskId s1 known1 fs fs1]
  obtain t1 where t1: "task_id (updatedTask now1 t1 s1) = taskId" "task_status (updatedTask now1 t1 s1) = s1"
    "file_at fs1 tasksPath = Some (old @ stringify (updatedTask now1 t1 s1) @ [LF])"
    by auto
  from a updateTaskStatus_appends [of stringify now2 tasksPath taskId s2 known2 fs1 fs2]
  obtain t2 where t2: "task_id (updatedTask now2 t2 s2) = taskId" "task_status (updatedTask now2 t2 s2) = s2"
    "file_at fs2 tasksPath =
       Some ((case file_at fs1 tasksPath of None \<Rightarrow> [] | Some old \<Rightarrow> old)
             @ stringify (updatedTask now2 t2 s2) @ [LF])"
    by auto
  from t1 t2 show "\<exists>a b. task_id a = taskId \<and> task_id b = taskId \<and> task_status a = s1 \<and> task_status b = s2
           \<and> file_at fs2 tasksPath = Some (old @ stringify a @ [LF] @ stringify b @ [LF])"
    by (intro exI [of _ "updatedTask now1 t1 s1"] exI [of _ "updatedTask now2 t2 s2"]) simp
next
  assume "task_id a = ''t1'' \<and> task_status a = ''pending'' \<and> task_id b = ''t1''
        \<and> task_status b = ''completed''"
  then show "listTasks [a, b] (Some ''pending'') = []" "listTasks [a, b] (Some ''completed'') = [b]"
    using list_scenario [of a b] by simp_all
qed

theorem latest_by_position_witness:
  "getLatestTasks
     [exampleTask ''t1'' ''2026-02-05T10:00:00.000Z'' ''pending'',
      exampleTask ''t2'' ''2026-02-05T11:00:00.000Z'' ''pending'',
      exampleTask ''t1'' ''2026-02-01T09:00:00.000Z'' ''completed'']
   = [exampleTask ''t1'' ''2026-02-01T09:00:00.000Z'' ''completed'',
      exampleTask ''t2'' ''2026-02-05T11:00:00.000Z'' ''pending'']
   \<and> updateTaskStatus (\<lambda>t. task_id t @ '':'' @ task_status t) ''2026-02-06T08:00:00.000Z''
        ''memory/tasks.jsonl'' ''t1'' ''in-progress''
        [exampleTask ''t1'' ''2026-02-05T10:00:00.000Z'' ''pending'']
        \<lparr>file_at = [''memory/tasks.jsonl'' \<mapsto> ''t1:pending'' @ [LF]], refused = {}\<rparr>
     = (Inr (),
        \<lparr>file_at = [''memory/tasks.jsonl'' \<mapsto> ''t1:pending'' @ [LF] @ ''t1:in-progress'' @ [LF]],
         refused = {}\<rparr>)
   \<and> listTasks [exampleTask ''t1'' ''c'' ''pending'', exampleTask ''t1'' ''c'' ''completed'']
        (Some ''pending'') = []
   \<and> listTasks [exampleTask ''t1'' ''c'' ''pending'', exampleTask ''t1'' ''c'' ''completed'']
        (Some ''completed'') = [exampleTask ''t1'' ''c'' ''completed'']"
proof -
  have 1: "getLatestTasks
     [exampleTask ''t1'' ''2026-02-05T10:00:00.000Z'' ''pending'',
      exampleTask ''t2'' ''2026-02-05T11:00:00.000Z'' ''pending'',
      exampleTask ''t1'' ''2026-02-01T09:00:00.000Z'' ''completed'']
   = [exampleTask ''t1'' ''2026-02-01T09:00:00.000Z'' ''completed'',
      exampleTask ''t2'' ''2026-02-05T11:00:00.000Z'' ''pending'']"
    by (simp add: getLatestTasks_def exampleTask_def)
  have 2: "updateTaskStatus (\<lambda>t. task_id t @ '':'' @ task_status t) ''2026-02-06T08:00:00.000Z''
        ''memory/tasks.jsonl'' ''t1'' ''in-progress''
        [exampleTask ''t1'' ''2026-02-05T10:00:00.000Z'' ''pending'']
        \<lparr>file_at = [''memory/tasks.jsonl'' \<mapsto> ''t1:pending'' @ [LF]], refused = {}\<rparr>
     = (Inr (),
        \<lparr>file_at = [''memory/tasks.jsonl'' \<mapsto> ''t1:pending'' @ [LF] @ ''t1:in-progress'' @ [LF]],
         refused = {}\<rparr>)"
    by (simp add: updateTaskStatus_def updatedTask_def appendFile_def exampleTask_def)
  show ?thesis
    using latest_by_position [where a = "exampleTask ''t1'' ''c'' ''pending''"
        and b = "exampleTask ''t1'' ''c'' ''completed''"] 1 2
    by (simp add: exampleTask_def)
qed

text \<open>
  Claim C4. Reading a log skips the lines that do not parse and raises nothing.
  \<^verbatim>\<open>readTasks\<close> does so: it returns the parsed well-formed lines, as many as there are.
  \<^verbatim>\<open>diaryRead\<close> does not: it maps \<^verbatim>\<open>JSON.parse\<close> over the lines with no \<^verbatim>\<open>try\<close>, so one
  malformed line makes the whole read throw a \<^verbatim>\<open>SyntaxError\<close>.
\<close>

theorem diaryRead_throws_on_malformed_line:
  "(file_at fs path = Some content \<longrightarrow>
      readTasks parse path fs = Inr (map the (filter (\<lambda>r. r \<noteq> None) (map parse (taskLines content))))
      \<and> (\<forall>tasks. readTasks parse path fs = Inr tasks \<longrightarrow>
            length tasks = length (filter (\<lambda>l. parse l \<noteq> None) (taskLines content))))
   \<and> (file_at fs (DIARY_PATH home) = Some content
        \<and> (\<exists>l \<in> set (filter (\<lambda>l. l \<noteq> []) (splitLines (trim content))). dparse l = None) \<longrightarrow>
        diaryRead dparse sortNewestFirst home params fs = Inl SyntaxError)"
proof (intro conjI impI allI)
  assume c: "file_at fs path = Some content"
  then show "readTasks parse path fs = Inr (map the (filter (\<lambda>r. r \<noteq> None) (map parse (taskLines content))))"
    by (simp add: readTasks_def readFile_def parseLines_eq)
  fix tasks
  assume "readTasks parse path fs = Inr tasks"
  with c show "length tasks = length (filter (\<lambda>l. parse l \<noteq> None) (taskLines content))"
    by (auto simp: readTasks_def readFile_def parseLines_length)
next
  assume "file_at fs (DIARY_PATH home) = Some content
        \<and> (\<exists>l \<in> set (filter (\<lambda>l. l \<noteq> []) (splitLines (trim content))). dparse l = None)"
  then show "diaryRead dparse sortNewestFirst home params fs = Inl SyntaxError"
    using parseAll_Inl [of "filter (\<lambda>l. l \<noteq> []) (splitLines (trim content))" dparse]
    by (simp add: diaryRead_def fileExists_def readFile_def Let_def)
qed

lemma example_lines:
  "splitLines (trim (''{}'' @ [LF] @ ''not json'' @ [LF])) = [''{}'', ''not json'']"
  by (simp add: splitLines_def splitOn_def trim_def isWhitespace_def LF_def)

theorem diaryRead_throws_on_malformed_line_witness:
  "readTasks (\<lambda>l. if l = ''{}'' then Some exampleEntry else None) (DIARY_PATH ''/home/u'')
     \<lparr>file_at = [DIARY_PATH ''/home/u'' \<mapsto> ''{}'' @ [LF] @ ''not json'' @ [LF]], refused = {}\<rparr>
   = Inr [exampleEntry]
   \<and> diaryRead (\<lambda>l. if l = ''{}'' then Some exampleEntry else None) (\<lambda>entries. entries) ''/home/u''
       \<lparr>r_limit = None, r_after = None, r_before = None, r_mood = None, r_tag = None\<rparr>
       \<lparr>file_at = [DIARY_PATH ''/home/u'' \<mapsto> ''{}'' @ [LF] @ ''not json'' @ [LF]], refused = {}\<rparr>
     = Inl SyntaxError"
proof -
  let ?fs = "\<lparr>file_at = [DIARY_PATH ''/home/u'' \<mapsto> ''{}'' @ [LF] @ ''not json'' @ [LF]], refused = {}\<rparr>"
  let ?parse = "\<lambda>l. if l = ''{}'' then Some exampleEntry else None"
  have 1: "readTasks ?parse (DIARY_PATH ''/home/u'') ?fs = Inr [exampleEntry]"
    using example_lines by (simp add: readTasks_def readFile_def taskLines_def trim_def isWhitespace_def)
  have h: "file_at ?fs (DIARY_PATH ''/home/u'') = Some (''{}'' @ [LF] @ ''not json'' @ [LF])
        \<and> (\<exists>l \<in> set (filter (\<lambda>l. l \<noteq> []) (splitLines (trim (''{}'' @ [LF] @ ''not json'' @ [LF])))).
              ?parse l = None)"
    unfolding example_lines by simp
  from conjunct2 [OF diaryRead_throws_on_malformed_line] h
  have 2: "diaryRead ?parse (\<lambda>entries. entries) ''/home/u''
       \<lparr>r_limit = None, r_after = None, r_before = None, r_mood = None, r_tag = None\<rparr> ?fs
     = Inl SyntaxError"
    by (rule mp)
  from 1 2 show ?thesis by (rule conjI)
qed

lemma trim_empty_iff: "trim s = [] \<longleftrightarrow> (\<forall>c \<in> set s. isWhitespace c)"
proof
  assume "trim s = []"
  then have "\<forall>c \<in> set (dropWhile isWhitespace s). isWhitespace c"
    by (simp add: trim_def dropWhile_eq_Nil_conv)
  then have "dropWhile isWhitespace s = []"
    using hd_dropWhile [of isWhitespace s] by (cases "dropWhile isWhitespace s") auto
  then show "\<forall>c \<in> set s. isWhitespace c"
    by (metis dropWhile_eq_Nil_conv)
next
  assume "\<forall>c \<in> set s. isWhitespace c"
  then have d: "dropWhile isWhitespace s = []" by (metis dropWhile_eq_Nil_conv)
  show "trim s = []" unfolding trim_def d by simp
qed

text \<open>
  Claim C5, as amended. Given empty or whitespace-only content, \<^verbatim>\<open>quickCapture\<close> returns
  the structured failure \<^verbatim>\<open>{success: false, error: "Content cannot be empty"}\<close>, while
  \<^verbatim>\<open>diaryWrite\<close> and \<^verbatim>\<open>updateDashboardNote\<close> raise an \<^verbatim>\<open>Error\<close> to the caller; all three
  stop before any file operation and leave the file system as it was.
\<close>

theorem empty_content_rejected:
  "((\<forall>c \<in> set (qc_content params). isWhitespace c) \<longrightarrow>
      quickCapture tstringify rt params fs = (Inr (failure ''Content cannot be empty''), fs))
   \<and> ((\<forall>c \<in> set (w_reflections wparams). isWhitespace c) \<longrightarrow>
      diaryWrite dstringify home uuid now wparams fs = (Inl (Error ''Reflections cannot be empty''), fs))
   \<and> ((\<forall>c \<in> set msg. isWhitespace c) \<longrightarrow>
      updateDashboardNote nstringify now noteFile msg emoji fs = (Inl (Error ''Message cannot be empty''), fs))"
  by (simp add: quickCapture_def validateParams_def diaryWrite_def updateDashboardNote_def
      validateNoteContent_def trim_empty_iff [symmetric])

theorem empty_content_rejected_witness:
  "quickCapture task_task exampleRuntime (capture ''  '') emptyDisk
     = (Inr (failure ''Content cannot be empty''), emptyDisk)
   \<and> diaryWrite diary_reflections ''/home/u'' ''0b5e'' ''2026-02-05T10:00:00.000Z'' blankWrite emptyDisk
     = (Inl (Error ''Reflections cannot be empty''), emptyDisk)
   \<and> updateDashboardNote note_message ''2026-02-05T10:00:00.000Z'' ''/ws/note.json'' '''' ''x'' emptyDisk
     = (Inl (Error ''Message cannot be empty''), emptyDisk)
   \<and> quickCapture task_task exampleRuntime (capture ''buy milk'') emptyDisk
     = (Inr \<lparr>qc_success = True, qc_taskId = Some ''0b5e'',
             qc_filePath = Some ''/ws/memory/tasks.jsonl'', qc_error = None\<rparr>,
        \<lparr>file_at = [''/ws/memory/tasks.jsonl'' \<mapsto> ''buy milk'' @ [LF]], refused = {}\<rparr>)"
proof -
  have w: "\<forall>c \<in> set ''  ''. isWhitespace c" "\<forall>c \<in> set ''   ''. isWhitespace c"
    "\<forall>c \<in> set ''''. isWhitespace c"
    by (simp_all add: isWhitespace_def)
  have j: "join ''/ws'' ''memory'' = ''/ws/memory''"
    "join ''/ws/memory'' ''tasks.jsonl'' = ''/ws/memory/tasks.jsonl''"
    by (simp_all add: join_def normalizePath_def splitOn_def)
  have t: "trim ''buy milk'' = ''buy milk''"
    by (simp add: trim_def isWhitespace_def)
  have 4: "quickCapture task_task exampleRuntime (capture ''buy milk'') emptyDisk
     = (Inr \<lparr>qc_success = True, qc_taskId = Some ''0b5e'',
             qc_filePath = Some ''/ws/memory/tasks.jsonl'', qc_error = None\<rparr>,
        \<lparr>file_at = [''/ws/memory/tasks.jsonl'' \<mapsto> ''buy milk'' @ [LF]], refused = {}\<rparr>)"
    by (simp add: quickCapture_def validateParams_def capture_def VALID_TYPES_def truthy_def
        j t mkdir_def emptyDisk_def captureTask_def appendFile_def exampleRuntime_def Let_def)
  show ?thesis
    using empty_content_rejected [where params = "capture ''  ''" and wparams = blankWrite
        and msg = "''''" and fs = emptyDisk] w 4
    by (simp add: capture_def blankWrite_def)
qed

text \<open>
  As stated, claim C5 has all three tools return a structured result rather than raise:
  on blank input \<^verbatim>\<open>diaryWrite\<close> and \<^verbatim>\<open>updateDashboardNote\<close> raise.
\<close>

theorem validation_raises_counterexample:
  "fst (diaryWrite diary_reflections ''/home/u'' ''0b5e'' ''2026-02-05T10:00:00.000Z'' blankWrite emptyDisk)
     = Inl (Error ''Reflections cannot be empty'')
   \<and> fst (updateDashboardNote note_message ''2026-02-05T10:00:00.000Z'' ''/ws/note.json'' '''' ''x'' emptyDisk)
     = Inl (Error ''Message cannot be empty'')"
  by (simp add: diaryWrite_def blankWrite_def updateDashboardNote_def validateNoteContent_def
      trim_def isWhitespace_def)

section \<open>Properties of the usage log and of the atomic writer\<close>

lemma array_join_lines:
  "array_join [LF] ls @ (if ls \<noteq> [] then [LF] else []) = concat (map (\<lambda>l. l @ [LF]) ls)"
  by (induction "[LF]" ls rule: array_join.induct) auto

lemma atomicWrite_default:
  "atomicWrite now path content defaultOptions fs =
     (if dirname path \<in> refused fs \<or> path @ ''.tmp'' \<in> refused fs then (Inl (IOError ''EACCES''), fs)
      else if path \<in> refused fs
      then (Inl (IOError ''EACCES''), fs\<lparr>file_at := (file_at fs)(path @ ''.tmp'' \<mapsto> content)\<rparr>)
      else (Inr (), fs\<lparr>file_at := ((file_at fs)(path @ ''.tmp'' := None))(path \<mapsto> content)\<rparr>))"
  by (auto simp: atomicWrite_def defaultOptions_def mkdir_def writeFile_def rename_def Let_def)

lemma keepLine_iff:
  "keepLine parse today line \<longleftrightarrow>
     \<not> (\<exists>entry. parse line = Some entry \<and> dateOf entry = Inr (Some (JString today)))"
  by (auto simp: keepLine_def split: option.splits sum.splits)

lemma atomicWrite_default_ok:
  "atomicWrite now path content defaultOptions fs = (Inr (), fs') \<Longrightarrow> file_at fs' path = Some content"
  unfolding atomicWrite_default by (simp split: if_splits) auto

lemma resetDailyQuota_rewrites:
  assumes "file_at fs logFile = Some content" "content \<noteq> []"
    "resetDailyQuota parse now logFile fs = (Inr (), fs')"
  shows "file_at fs' logFile =
           Some (concat (map (\<lambda>l. l @ [LF])
                   (filter (keepLine parse (datePart now))
                      (filter (\<lambda>l. trim l \<noteq> []) (splitLines content)))))"
proof -
  let ?kept = "filter (keepLine parse (datePart now)) (filter (\<lambda>l. trim l \<noteq> []) (splitLines content))"
  have "resetDailyQuota parse now logFile fs
          = atomicWrite now logFile (array_join [LF] ?kept @ (if ?kept \<noteq> [] then [LF] else []))
              defaultOptions fs"
    using assms(1,2)
    by (simp add: resetDailyQuota_def fileExists_def safeReadFile_def readFile_def Let_def)
  with assms(3) show ?thesis
    using atomicWrite_default_ok [of now logFile _ fs fs'] by (simp only: array_join_lines)
qed

lemma resetDailyQuota_nothing:
  "file_at fs logFile = None \<or> file_at fs logFile = Some [] \<Longrightarrow>
     resetDailyQuota parse now logFile fs = (Inr (), fs)"
  by (auto simp: resetDailyQuota_def fileExists_def safeReadFile_def readFile_def)

lemma appendOnly_refl: "appendOnly fs fs"
  by (simp add: appendOnly_def)

lemma appendFile_appendOnly: "appendFile path data fs = (r, fs') \<Longrightarrow> appendOnly fs fs'"
  by (auto simp: appendOnly_def appendFile_def split: if_splits)

lemma appendToFile_appendOnly: "appendToFile path data fs = (r, fs') \<Longrightarrow> appendOnly fs fs'"
  by (auto simp: appendToFile_def mkdir_def appendOnly_refl split: if_splits dest: appendFile_appendOnly)

lemma logUsage_appendOnly: "appendOnly fs (snd (logUsage stringify now logFile provider query fs))"
  using appendToFile_appendOnly [OF surjective_pairing]
  by (simp add: logUsage_def Let_def)

lemma updateTaskStatus_appendOnly:
  "appendOnly fs (snd (updateTaskStatus stringify now tasksPath taskId newStatus tasks fs))"
proof (cases "find (\<lambda>t. task_id t = taskId) tasks")
  case None
  then show ?thesis by (simp add: updateTaskStatus_def appendOnly_refl)
next
  case (Some task)
  then show ?thesis
    using appendFile_appendOnly [OF surjective_pairing]
    by (simp add: updateTaskStatus_def Let_def)
qed

lemma snd_case_outcome:
  "snd (case x of (Inr u, fs1) \<Rightarrow> (A, fs1) | (Inl e, fs1) \<Rightarrow> (B e, fs1)) = snd x"
  by (auto split: prod.splits sum.splits)

lemma captureTask_appendOnly: "appendOnly fs (snd (captureTask stringify rt params memoryDir fs))"
  unfolding captureTask_def Let_def snd_case_outcome
  by (rule appendFile_appendOnly [OF surjective_pairing])

lemma diaryWrite_appendOnly: "appendOnly fs (snd (diaryWrite stringify home uuid now params fs))"
proof -
  have "snd (diaryWrite stringify home uuid now params fs) = fs
        \<or> (\<exists>p d. snd (diaryWrite stringify home uuid now params fs) = snd (appendFile p d fs))"
    unfolding diaryWrite_def Let_def
    by (simp split: prod.splits sum.splits) (metis snd_conv)
  then show ?thesis
    using appendOnly_refl appendFile_appendOnly [OF surjective_pairing] by auto
qed

lemma threadsPath_inline:
  "join (join (if truthy (tm_workspaceRoot params) then the (tm_workspaceRoot params)
               else join3 (rt_homedir rt) ''.openclaw'' ''workspace'') ''memory'') ''threads.json''
   = threadsPathOf rt params"
  by (simp add: threadsPathOf_def Let_def)

lemma threadMarker_rewrites:
  assumes "tm_success (fst (threadMarker parse stringify rt params fs))"
  shows "file_at (snd (threadMarker parse stringify rt params fs)) (threadsPathOf rt params)
         = Some (stringify
             ((readThreadsFile parse (threadsPathOf rt params) fs)
                \<lparr>tf_threads := tf_threads (readThreadsFile parse (threadsPathOf rt params) fs)
                                 @ [newThread rt params]\<rparr>))"
proof (cases "validateParams_thread params")
  case (Some err)
  with assms show ?thesis by (simp add: threadMarker_def failed_def)
next
  case None
  let ?dir = "join (if truthy (tm_workspaceRoot params) then the (tm_workspaceRoot params)
                    else join3 (rt_homedir rt) ''.openclaw'' ''workspace'') ''memory''"
  show ?thesis
  proof (cases "?dir \<in> refused fs")
    case True
    with assms None show ?thesis
      by (simp add: threadMarker_def Let_def mkdir_def failed_def)
  next
    case False
    show ?thesis
    proof (cases "threadsPathOf rt params \<in> refused fs")
      case True
      with assms None False show ?thesis
        by (simp add: threadMarker_def Let_def mkdir_def threadsPath_inline writeThreadsFile_def
            writeFile_def failed_def)
    next
      case notRefused: False
      with None False show ?thesis
        by (simp add: threadMarker_def Let_def mkdir_def threadsPath_inline writeThreadsFile_def
            writeFile_def)
    qed
  qed
qed

lemma readThreadsFile_unparsed:
  "file_at fs threadsPath = None
   \<or> (\<exists>content. file_at fs threadsPath = Some content \<and> parse content = None) \<Longrightarrow>
     readThreadsFile parse threadsPath fs = \<lparr>tf_threads = []\<rparr>"
  by (auto simp: readThreadsFile_def readFile_def)

lemma readThreadsFile_parsed:
  "file_at fs threadsPath = Some content \<Longrightarrow> parse content = Some data \<Longrightarrow>
     readThreadsFile parse threadsPath fs = data"
  by (simp add: readThreadsFile_def readFile_def)

text \<open>
  Claim C8, as amended. On a log that exists and is not empty, a reset that succeeds
  rewrites the file to the lines kept, each followed by a line feed, in their original
  order: the kept lines are the non-blank lines (a line with a character that is not
  white space) that do not parse to an entry whose \<^verbatim>\<open>date\<close> is today's date, so entries of
  other days and malformed non-blank lines stay, and blank lines go. A missing or empty
  log is left as it is. The reset is not the only operation that rewrites a log: the
  thread store is one JSON document, and every call of \<^verbatim>\<open>threadMarker\<close> that succeeds
  writes the whole of it anew, from the threads it parsed followed by the new thread;
  a store that is missing or does not parse counts as no threads, so what did not parse
  is gone. The other log operations (\<^verbatim>\<open>logUsage\<close>, \<^verbatim>\<open>updateTaskStatus\<close>, \<^verbatim>\<open>captureTask\<close>,
  \<^verbatim>\<open>diaryWrite\<close>) only append: every file keeps its former content as a prefix.
\<close>

theorem quota_reset_rewrites:
  "(file_at fs logFile = Some content \<and> content \<noteq> []
      \<and> resetDailyQuota parse now logFile fs = (Inr (), fs') \<longrightarrow>
      file_at fs' logFile =
        Some (concat (map (\<lambda>l. l @ [LF])
                (filter (keepLine parse (datePart now))
                   (filter (\<lambda>l. trim l \<noteq> []) (splitLines content))))))
   \<and> (keepLine parse today line \<longleftrightarrow>
        \<not> (\<exists>entry. parse line = Some entry \<and> dateOf entry = Inr (Some (JString today))))
   \<and> (file_at fs logFile = None \<or> file_at fs logFile = Some [] \<longrightarrow>
        resetDailyQuota parse now logFile fs = (Inr (), fs))
   \<and> (tm_success (fst (threadMarker thparse thstringify thrt thparams fs)) \<longrightarrow>
        file_at (snd (threadMarker thparse thstringify thrt thparams fs)) (threadsPathOf thrt thparams)
          = Some (thstringify
              ((readThreadsFile thparse (threadsPathOf thrt thparams) fs)
                 \<lparr>tf_threads := tf_threads (readThreadsFile thparse (threadsPathOf thrt thparams) fs)
                                  @ [newThread thrt thparams]\<rparr>)))
   \<and> (file_at fs threadsPath = None
        \<or> (\<exists>content. file_at fs threadsPath = Some content \<and> thparse content = None) \<longrightarrow>
        readThreadsFile thparse threadsPath fs = \<lparr>tf_threads = []\<rparr>)
   \<and> (file_at fs threadsPath = Some stored \<and> thparse stored = Some data \<longrightarrow>
        readThreadsFile thparse threadsPath fs = data)
   \<and> appendOnly fs (snd (logUsage ustringify now logFile provider query fs))
   \<and> appendOnly fs (snd (updateTaskStatus tstringify now tasksPath taskId newStatus tasks fs))
   \<and> appendOnly fs (snd (captureTask tstringify rt params memoryDir fs))
   \<and> appendOnly fs (snd (diaryWrite dstringify home uuid now wparams fs))"
proof (intro conjI impI)
  assume "file_at fs logFile = Some content \<and> content \<noteq> []
      \<and> resetDailyQuota parse now logFile fs = (Inr (), fs')"
  then show "file_at fs' logFile =
        Some (concat (map (\<lambda>l. l @ [LF])
                (filter (keepLine parse (datePart now))
                   (filter (\<lambda>l. trim l \<noteq> []) (splitLines content)))))"
    using resetDailyQuota_rewrites [of fs logFile content parse now fs'] by simp
next
  show "keepLine parse today line \<longleftrightarrow>
        \<not> (\<exists>entry. parse line = Some entry \<and> dateOf entry = Inr (Some (JString today)))"
    by (rule keepLine_iff)
next
  assume "file_at fs logFile = None \<or> file_at fs logFile = Some []"
  then show "resetDailyQuota parse now logFile fs = (Inr (), fs)"
    by (rule resetDailyQuota_nothing)
next
  assume "tm_success (fst (threadMarker thparse thstringify thrt thparams fs))"
  then show "file_at (snd (threadMarker thparse thstringify thrt thparams fs)) (threadsPathOf thrt thparams)
          = Some (thstringify
              ((readThreadsFile thparse (threadsPathOf thrt thparams) fs)
                 \<lparr>tf_threads := tf_threads (readThreadsFile thparse (threadsPathOf thrt thparams) fs)
                                  @ [newThread thrt thparams]\<rparr>))"
    by (rule threadMarker_rewrites)
next
  assume "file_at fs threadsPath = None
        \<or> (\<exists>content. file_at fs threadsPath = Some content \<and> thparse content = None)"
  then show "readThreadsFile thparse threadsPath fs = \<lparr>tf_threads = []\<rparr>"
    by (rule readThreadsFile_unparsed)
next
  assume "file_at fs threadsPath = Some stored \<and> thparse stored = Some data"
  then show "readThreadsFile thparse threadsPath fs = data"
    using readThreadsFile_parsed [of fs threadsPath stored thparse data] by blast
next
  show "appendOnly fs (snd (logUsage ustringify now logFile provider query fs))"
    by (rule logUsage_appendOnly)
  show "appendOnly fs (snd (updateTaskStatus tstringify now tasksPath taskId newStatus tasks fs))"
    by (rule updateTaskStatus_appendOnly)
  show "appendOnly fs (snd (captureTask tstringify rt params memoryDir fs))"
    by (rule captureTask_appendOnly)
  show "appendOnly fs (snd (diaryWrite dstringify home uuid now wparams fs))"
    by (rule diaryWrite_appendOnly)
qed

lemma usage_lines:
  "splitLines (''{old}'' @ [LF] @ ''{new}'' @ [LF] @ ''oops'' @ [LF]) = [''{old}'', ''{new}'', ''oops'', '''']"
  "splitLines (''   '' @ [LF] @ ''{old}'' @ [LF]) = [''   '', ''{old}'', '''']"
  by (simp_all add: splitLines_def splitOn_def LF_def)

lemma usage_keep:
  "keepLine usageParse ''2026-02-05'' ''{old}''" "\<not> keepLine usageParse ''2026-02-05'' ''{new}''"
  "keepLine usageParse ''2026-02-05'' ''oops''"
  by (simp_all add: keepLine_def usageParse_def)

lemma usage_today: "datePart ''2026-02-05T10:00:00.000Z'' = ''2026-02-05''"
  by (simp add: datePart_def splitOn_def)

lemma usage_trim: "trim ''{old}'' \<noteq> []" "trim ''{new}'' \<noteq> []" "trim ''oops'' \<noteq> []"
  "trim ''   '' = []" "trim '''' = []"
  by (simp_all add: trim_def isWhitespace_def)

lemma usage_dirname: "dirname ''usage.jsonl'' = ''.''"
  by (simp add: dirname_def)

lemma usage_reset:
  "resetDailyQuota usageParse ''2026-02-05T10:00:00.000Z'' ''usage.jsonl''
     \<lparr>file_at = [''usage.jsonl'' \<mapsto> ''{old}'' @ [LF] @ ''{new}'' @ [LF] @ ''oops'' @ [LF]], refused = {}\<rparr>
   = (Inr (),
      \<lparr>file_at = [''usage.jsonl'' \<mapsto> ''{old}'' @ [LF] @ ''oops'' @ [LF]], refused = {}\<rparr>)"
  using usage_lines(1)
  by (simp add: resetDailyQuota_def fileExists_def safeReadFile_def readFile_def Let_def
      atomicWrite_default usage_keep usage_today usage_trim usage_dirname fun_upd_twist)

lemma mark_path: "threadsPathOf threadRuntime0 (mark topic) = ''/ws/memory/threads.json''"
  by (simp add: threadsPathOf_def mark_def truthy_def join_def normalizePath_def splitOn_def)

lemma mark_plants:
  "newThread threadRuntime0 (mark ''plants'')
   = \<lparr>thread_id = ''0b5e'', thread_timestamp = ''2026-02-05T10:00:00.000Z'',
      thread_topic = ''plants'', thread_question = ''again?'', thread_revisit = None,
      thread_importance = ''medium'', thread_status = ''open''\<rparr>"
  by (simp add: newThread_def mark_def threadRuntime0_def parseWhen_def truthy_def trim_def
      isWhitespace_def)

lemma mark_runs:
  "threadMarker threadsParse topicsOf threadRuntime0 (mark ''plants'')
     \<lparr>file_at = files, refused = {}\<rparr>
   = (\<lparr>tm_success = True, tm_threadId = Some ''0b5e'', tm_error = None\<rparr>,
      \<lparr>file_at = files(''/ws/memory/threads.json'' \<mapsto>
           topicsOf
             ((readThreadsFile threadsParse ''/ws/memory/threads.json'' \<lparr>file_at = files, refused = {}\<rparr>)
                \<lparr>tf_threads :=
                   tf_threads (readThreadsFile threadsParse ''/ws/memory/threads.json''
                                 \<lparr>file_at = files, refused = {}\<rparr>)
                   @ [newThread threadRuntime0 (mark ''plants'')]\<rparr>)),
       refused = {}\<rparr>)"
proof -
  have v: "validateParams_thread (mark ''plants'') = None"
    by (simp add: validateParams_thread_def mark_def truthy_def trim_def isWhitespace_def)
  have p: "join (join ''/ws'' ''memory'') ''threads.json'' = ''/ws/memory/threads.json''"
    by (simp add: join_def normalizePath_def splitOn_def)
  have w: "tm_workspaceRoot (mark ''plants'') = Some ''/ws''" by (simp add: mark_def)
  have u: "rt_uuid threadRuntime0 = ''0b5e''" by (simp add: threadRuntime0_def)
  show ?thesis
    by (simp add: threadMarker_def v Let_def w truthy_def p mkdir_def writeThreadsFile_def
        writeFile_def u)
qed

theorem quota_reset_rewrites_witness:
  "file_at
     (snd (resetDailyQuota usageParse ''2026-02-05T10:00:00.000Z'' ''usage.jsonl''
        \<lparr>file_at = [''usage.jsonl'' \<mapsto> ''{old}'' @ [LF] @ ''{new}'' @ [LF] @ ''oops'' @ [LF]],
         refused = {}\<rparr>))
     ''usage.jsonl''
   = Some (''{old}'' @ [LF] @ ''oops'' @ [LF])
   \<and> resetDailyQuota usageParse ''2026-02-05T10:00:00.000Z'' ''usage.jsonl'' emptyDisk
     = (Inr (), emptyDisk)
   \<and> file_at (snd (threadMarker threadsParse topicsOf threadRuntime0 (mark ''plants'') emptyDisk))
       ''/ws/memory/threads.json''
     = Some ''[plants]''"
proof -
  let ?content = "''{old}'' @ [LF] @ ''{new}'' @ [LF] @ ''oops'' @ [LF]"
  let ?disk = "\<lparr>file_at = [''usage.jsonl'' \<mapsto> ?content], refused = {}\<rparr>"
  let ?after = "snd (resetDailyQuota usageParse ''2026-02-05T10:00:00.000Z'' ''usage.jsonl'' ?disk)"
  have run: "file_at ?disk ''usage.jsonl'' = Some ?content \<and> ?content \<noteq> []
      \<and> resetDailyQuota usageParse ''2026-02-05T10:00:00.000Z'' ''usage.jsonl'' ?disk = (Inr (), ?after)"
    using usage_reset by simp
  have kept: "concat (map (\<lambda>l. l @ [LF])
                (filter (keepLine usageParse (datePart ''2026-02-05T10:00:00.000Z''))
                   (filter (\<lambda>l. trim l \<noteq> []) (splitLines ?content))))
              = ''{old}'' @ [LF] @ ''oops'' @ [LF]"
    unfolding usage_lines usage_today by (simp add: usage_keep usage_trim)
  have missing: "file_at emptyDisk ''usage.jsonl'' = None \<or> file_at emptyDisk ''usage.jsonl'' = Some []"
    by (simp add: emptyDisk_def)
  have ok: "tm_success (fst (threadMarker threadsParse topicsOf threadRuntime0 (mark ''plants'') emptyDisk))"
    unfolding emptyDisk_def mark_runs by simp
  have nofile: "file_at emptyDisk ''/ws/memory/threads.json'' = None
      \<or> (\<exists>content. file_at emptyDisk ''/ws/memory/threads.json'' = Some content
            \<and> threadsParse content = None)"
    by (simp add: emptyDisk_def)
  note thm1 = quota_reset_rewrites [where fs = ?disk and logFile = "''usage.jsonl''"
      and parse = usageParse and now = "''2026-02-05T10:00:00.000Z''" and content = ?content
      and fs' = ?after]
  note thm2 = quota_reset_rewrites [where fs = emptyDisk and logFile = "''usage.jsonl''"
      and parse = usageParse and now = "''2026-02-05T10:00:00.000Z''"
      and thparse = threadsParse and thstringify = topicsOf and thrt = threadRuntime0
      and thparams = "mark ''plants''" and threadsPath = "''/ws/memory/threads.json''"]
  from thm1 [THEN conjunct1] run have 1: "file_at ?after ''usage.jsonl''
      = Some (concat (map (\<lambda>l. l @ [LF])
                (filter (keepLine usageParse (datePart ''2026-02-05T10:00:00.000Z''))
                   (filter (\<lambda>l. trim l \<noteq> []) (splitLines ?content)))))"
    by (rule mp)
  from thm2 [THEN conjunct2, THEN conjunct2, THEN conjunct1] missing
  have 2: "resetDailyQuota usageParse ''2026-02-05T10:00:00.000Z'' ''usage.jsonl'' emptyDisk
     = (Inr (), emptyDisk)"
    by (rule mp)
  from thm2 [THEN conjunct2, THEN conjunct2, THEN conjunct2, THEN conjunct2, THEN conjunct1] nofile
  have empty: "readThreadsFile threadsParse ''/ws/memory/threads.json'' emptyDisk = \<lparr>tf_threads = []\<rparr>"
    by (rule mp)
  from thm2 [THEN conjunct2, THEN conjunct2, THEN conjunct2, THEN conjunct1] ok
  have "file_at (snd (threadMarker threadsParse topicsOf threadRuntime0 (mark ''plants'') emptyDisk))
          (threadsPathOf threadRuntime0 (mark ''plants''))
        = Some (topicsOf
            ((readThreadsFile threadsParse (threadsPathOf threadRuntime0 (mark ''plants'')) emptyDisk)
               \<lparr>tf_threads :=
                  tf_threads (readThreadsFile threadsParse
                                (threadsPathOf threadRuntime0 (mark ''plants'')) emptyDisk)
                  @ [newThread threadRuntime0 (mark ''plants'')]\<rparr>))"
    by (rule mp)
  then have 3: "file_at (snd (threadMarker threadsParse topicsOf threadRuntime0 (mark ''plants'') emptyDisk))
       ''/ws/memory/threads.json'' = Some ''[plants]''"
    by (simp add: mark_path empty mark_plants topicsOf_def)
  from 1 2 3 show ?thesis by (simp only: kept)
qed

text \<open>
  As stated, claim C8 has every malformed line preserved, and the reset as the only
  operation that rewrites a log. A line of spaces is malformed, is not an entry of today,
  and is dropped by the reset. A call of \<^verbatim>\<open>threadMarker\<close> replaces the content of the thread
  store: the document it leaves does not begin with the former one, and a store that did
  not parse is overwritten by a document holding the new thread alone.
\<close>

theorem reset_and_thread_store_counterexample:
  "usageParse ''   '' = None
   \<and> ''   '' \<in> set (splitLines (''   '' @ [LF] @ ''{old}'' @ [LF]))
   \<and> resetDailyQuota usageParse ''2026-02-05T10:00:00.000Z'' ''usage.jsonl''
        \<lparr>file_at = [''usage.jsonl'' \<mapsto> ''   '' @ [LF] @ ''{old}'' @ [LF]], refused = {}\<rparr>
      = (Inr (), \<lparr>file_at = [''usage.jsonl'' \<mapsto> ''{old}'' @ [LF]], refused = {}\<rparr>)
   \<and> threadMarker threadsParse topicsOf threadRuntime0 (mark ''plants'')
        \<lparr>file_at = [''/ws/memory/threads.json'' \<mapsto> ''[old]''], refused = {}\<rparr>
      = (\<lparr>tm_success = True, tm_threadId = Some ''0b5e'', tm_error = None\<rparr>,
         \<lparr>file_at = [''/ws/memory/threads.json'' \<mapsto> ''[old,plants]''], refused = {}\<rparr>)
   \<and> \<not> prefix ''[old]'' ''[old,plants]''
   \<and> threadsParse ''oops'' = None
   \<and> threadMarker threadsParse topicsOf threadRuntime0 (mark ''plants'')
        \<lparr>file_at = [''/ws/memory/threads.json'' \<mapsto> ''oops''], refused = {}\<rparr>
      = (\<lparr>tm_success = True, tm_threadId = Some ''0b5e'', tm_error = None\<rparr>,
         \<lparr>file_at = [''/ws/memory/threads.json'' \<mapsto> ''[plants]''], refused = {}\<rparr>)
   \<and> \<not> appendOnly \<lparr>file_at = [''/ws/memory/threads.json'' \<mapsto> ''oops''], refused = {}\<rparr>
         (snd (threadMarker threadsParse topicsOf threadRuntime0 (mark ''plants'')
                 \<lparr>file_at = [''/ws/memory/threads.json'' \<mapsto> ''oops''], refused = {}\<rparr>))"
proof -
  have a: "usageParse ''   '' = None" by (simp add: usageParse_def)
  have b: "''   '' \<in> set (splitLines (''   '' @ [LF] @ ''{old}'' @ [LF]))"
    unfolding usage_lines by simp
  have c: "resetDailyQuota usageParse ''2026-02-05T10:00:00.000Z'' ''usage.jsonl''
        \<lparr>file_at = [''usage.jsonl'' \<mapsto> ''   '' @ [LF] @ ''{old}'' @ [LF]], refused = {}\<rparr>
      = (Inr (), \<lparr>file_at = [''usage.jsonl'' \<mapsto> ''{old}'' @ [LF]], refused = {}\<rparr>)"
    using usage_lines(2)
    by (simp add: resetDailyQuota_def fileExists_def safeReadFile_def readFile_def Let_def
        atomicWrite_default usage_keep usage_today usage_trim usage_dirname fun_upd_twist)
  have d: "threadMarker threadsParse topicsOf threadRuntime0 (mark ''plants'')
        \<lparr>file_at = [''/ws/memory/threads.json'' \<mapsto> ''[old]''], refused = {}\<rparr>
      = (\<lparr>tm_success = True, tm_threadId = Some ''0b5e'', tm_error = None\<rparr>,
         \<lparr>file_at = [''/ws/memory/threads.json'' \<mapsto> ''[old,plants]''], refused = {}\<rparr>)"
    unfolding mark_runs
    by (simp add: readThreadsFile_def readFile_def threadsParse_def mark_plants topicsOf_def
        oldThread_def)
  have e: "\<not> prefix ''[old]'' ''[old,plants]''" by simp
  have f: "threadsParse ''oops'' = None" by (simp add: threadsParse_def)
  have g: "threadMarker threadsParse topicsOf threadRuntime0 (mark ''plants'')
        \<lparr>file_at = [''/ws/memory/threads.json'' \<mapsto> ''oops''], refused = {}\<rparr>
      = (\<lparr>tm_success = True, tm_threadId = Some ''0b5e'', tm_error = None\<rparr>,
         \<lparr>file_at = [''/ws/memory/threads.json'' \<mapsto> ''[plants]''], refused = {}\<rparr>)"
    unfolding mark_runs
    by (simp add: readThreadsFile_def readFile_def threadsParse_def mark_plants topicsOf_def)
  have h: "\<not> appendOnly \<lparr>file_at = [''/ws/memory/threads.json'' \<mapsto> ''oops''], refused = {}\<rparr>
         (snd (threadMarker threadsParse topicsOf threadRuntime0 (mark ''plants'')
                 \<lparr>file_at = [''/ws/memory/threads.json'' \<mapsto> ''oops''], refused = {}\<rparr>))"
    unfolding g by (simp add: appendOnly_def)
  from a b c d e f g h show ?thesis by (intro conjI)
qed

lemma splitFrom_segments:
  "c \<notin> set cur \<Longrightarrow> \<forall>seg \<in> set (splitFrom c cur s). c \<notin> set seg"
proof (induction s arbitrary: cur)
  case Nil
  then show ?case by simp
next
  case (Cons x xs)
  show ?case
  proof (cases "x = c")
    case True
    with Cons.prems Cons.IH [of "[]"] show ?thesis by simp
  next
    case False
    with Cons.prems Cons.IH [of "cur @ [x]"] show ?thesis by simp
  qed
qed

lemma last_splitOn_no_sep: "c \<notin> set (last (splitOn c s))"
  using splitFrom_segments [of c "[]" s] splitFrom_ne [of c "[]" s] last_in_set [of "splitFrom c [] s"]
  by (simp add: splitOn_def)

lemma last_splitFrom_trailing: "last (splitFrom c cur (xs @ [c])) = []"
  using last_splitFrom_sep [of c cur xs "[]"] by simp

lemma array_join_shape:
  "segs \<noteq> [] \<Longrightarrow>
     array_join sep segs = last segs \<or> (\<exists>x. array_join sep segs = x @ sep @ last segs)"
proof (induction sep segs rule: array_join.induct)
  case (1 sep)
  then show ?case by simp
next
  case (2 sep x)
  then show ?case by simp
next
  case (3 sep x y ys)
  then have "array_join sep (y # ys) = last (y # ys)
      \<or> (\<exists>z. array_join sep (y # ys) = z @ sep @ last (y # ys))" by simp
  then show ?case
  proof
    assume "array_join sep (y # ys) = last (y # ys)"
    then have "array_join sep (x # y # ys) = x @ sep @ last (x # y # ys)" by simp
    then show ?thesis by blast
  next
    assume "\<exists>z. array_join sep (y # ys) = z @ sep @ last (y # ys)"
    then obtain z where "array_join sep (y # ys) = z @ sep @ last (y # ys)" by blast
    then have "array_join sep (x # y # ys) = (x @ sep @ z) @ sep @ last (x # y # ys)" by simp
    then show ?thesis by blast
  qed
qed

lemma last_splitOn_join:
  assumes "segs \<noteq> []" "CHR ''/'' \<notin> set (last segs)"
  shows "last (splitOn CHR ''/'' (array_join ''/'' segs)) = last segs"
  using array_join_shape [OF assms(1), of "''/''"]
proof
  assume "array_join ''/'' segs = last segs"
  then show ?thesis using assms(2) by (simp add: splitOn_def splitFrom_no_sep)
next
  assume "\<exists>x. array_join ''/'' segs = x @ ''/'' @ last segs"
  then obtain x where "array_join ''/'' segs = x @ CHR ''/'' # last segs" by auto
  then show ?thesis
    using assms(2) by (simp add: splitOn_def last_splitFrom_sep splitFrom_no_sep)
qed

lemma normalizePath_last_segment:
  assumes "last (splitOn CHR ''/'' p) \<noteq> []" "last (splitOn CHR ''/'' p) \<noteq> ''.''"
    "last (splitOn CHR ''/'' p) \<noteq> ''..''"
  shows "last (splitOn CHR ''/'' (normalizePath p)) = last (splitOn CHR ''/'' p)"
proof -
  let ?L = "last (splitOn CHR ''/'' p)"
  have pne: "p \<noteq> []" using assms(1) by (auto simp: splitOn_def)
  have segs: "splitOn CHR ''/'' p \<noteq> []" by (simp add: splitOn_def splitFrom_ne)
  have n: "normalizeSegs ab [] (splitOn CHR ''/'' p) \<noteq> []
           \<and> last (normalizeSegs ab [] (splitOn CHR ''/'' p)) = ?L" for ab
    using normalizeSegs_last [OF segs assms] by simp
  have j: "last (splitOn CHR ''/'' (array_join ''/'' (normalizeSegs ab [] (splitOn CHR ''/'' p)))) = ?L" for ab
    using last_splitOn_join [of "normalizeSegs ab [] (splitOn CHR ''/'' p)"] n [of ab]
      last_splitOn_no_sep [of "CHR ''/''" p] by simp
  have jne: "array_join ''/'' (normalizeSegs ab [] (splitOn CHR ''/'' p)) \<noteq> []" for ab
    using j [of ab] assms(1) by (auto simp: splitOn_def)
  have trail: "last p \<noteq> CHR ''/''"
  proof
    assume "last p = CHR ''/''"
    with pne have "p = butlast p @ [CHR ''/'']" by (metis append_butlast_last_id)
    then have "?L = []"
      using last_splitFrom_trailing [of "CHR ''/''" "[]" "butlast p"] by (simp add: splitOn_def)
    with assms(1) show False by simp
  qed
  have abs: "last (splitOn CHR ''/'' (CHR ''/'' # x)) = last (splitOn CHR ''/'' x)" for x
    using last_splitFrom_sep [of "CHR ''/''" "[]" "[]" x] by (simp add: splitOn_def)
  show ?thesis
    using pne trail j jne by (simp add: normalizePath_def Let_def abs)
qed

lemma backupPath_differs:
  assumes "CHR ''/'' \<notin> set now" "now \<noteq> []"
  shows "backupPathOf now path \<noteq> path"
proof
  assume eq: "backupPathOf now path = path"
  let ?ts = "map (\<lambda>c. if c = CHR '':'' \<or> c = CHR ''.'' then CHR ''-'' else c) now"
  let ?base = "last (splitOn CHR ''/'' path)"
  let ?X = "?base @ ''.'' @ ?ts"
  let ?D = "join (dirname path) ''.backups''"
  have ts: "CHR ''/'' \<notin> set ?ts" "CHR ''.'' \<notin> set ?ts" "?ts \<noteq> []"
    using assms by auto
  have X: "CHR ''/'' \<notin> set ?X" using ts last_splitOn_no_sep [of "CHR ''/''" path] by simp
  have lx: "last ?X \<noteq> CHR ''.''"
    using ts(2,3) last_in_set [of ?ts] by (auto simp: last_append)
  have Xne: "?X \<noteq> []" "?X \<noteq> ''.''" "?X \<noteq> ''..''"
  proof -
    show "?X \<noteq> []" by simp
    show "?X \<noteq> ''.''"
    proof
      assume "?X = ''.''"
      then have "last ?X = last ''.''" by (rule arg_cong)
      with lx show False by simp
    qed
    show "?X \<noteq> ''..''"
    proof
      assume "?X = ''..''"
      then have "last ?X = last ''..''" by (rule arg_cong)
      with lx show False by simp
    qed
  qed
  have lastX: "last (splitOn CHR ''/'' (y @ ?X)) = ?X" if "y = [] \<or> (\<exists>d. y = d @ ''/'')" for y
    using that X by (auto simp: splitOn_def splitFrom_no_sep last_splitFrom_sep)
  have "\<exists>y. (y = [] \<or> (\<exists>d. y = d @ ''/'')) \<and> join ?D ?X = normalizePath (y @ ?X)"
  proof (cases "?D = []")
    case True
    then have "join ?D ?X = normalizePath ([] @ ?X)" by (simp add: join_def)
    then show ?thesis by blast
  next
    case False
    then have "join ?D ?X = normalizePath ((?D @ ''/'') @ ?X)" by (simp add: join_def)
    then show ?thesis by blast
  qed
  then obtain y where y: "y = [] \<or> (\<exists>d. y = d @ ''/'')" "join ?D ?X = normalizePath (y @ ?X)"
    by blast
  have "last (splitOn CHR ''/'' (join ?D ?X)) = ?X"
    unfolding y(2) using normalizePath_last_segment [of "y @ ?X"] lastX [OF y(1)] Xne by simp
  moreover have "backupPathOf now path = join ?D ?X"
    by (simp add: backupPathOf_def Let_def)
  ultimately have "?base = ?X" using eq by simp
  then show False by simp
qed

lemma writeFileStates_props:
  assumes "writeFileStates p d fs = (r, ss)"
  shows "ss \<noteq> []"
    and "\<forall>s \<in> set ss. refused s = refused fs \<and> (\<forall>q. q \<noteq> p \<longrightarrow> file_at s q = file_at fs q)"
    and "r = Inr () \<longrightarrow> file_at (last ss) p = Some d"
    and "writeFile p d fs = (r, last ss)"
proof -
  show "ss \<noteq> []" using assms by (auto simp: writeFileStates_def split: if_splits)
  show "\<forall>s \<in> set ss. refused s = refused fs \<and> (\<forall>q. q \<noteq> p \<longrightarrow> file_at s q = file_at fs q)"
    using assms by (auto simp: writeFileStates_def split: if_splits)
  have l: "last (map f [0 ..< Suc n]) = f n" for f :: "nat \<Rightarrow> filesystem" and n
    by (simp add: last_map)
  show "r = Inr () \<longrightarrow> file_at (last ss) p = Some d"
    using assms by (auto simp: writeFileStates_def l simp del: upt_Suc split: if_splits)
  show "writeFile p d fs = (r, last ss)"
    using assms by (auto simp: writeFileStates_def writeFile_def l simp del: upt_Suc split: if_splits)
qed

lemma backupFileStates_props:
  assumes "backupFileStates now path fs = (r, ss)"
  shows "ss \<noteq> []"
    and "\<forall>s \<in> set ss. refused s = refused fs
            \<and> (\<forall>q. q \<noteq> backupPathOf now path \<longrightarrow> file_at s q = file_at fs q)"
    and "backupFile now path fs = (r, last ss)"
proof -
  obtain r' ss' where w: "writeFileStates (backupPathOf now path) (the (file_at fs path)) fs = (r', ss')"
    by (cases "writeFileStates (backupPathOf now path) (the (file_at fs path)) fs") auto
  note p = writeFileStates_props [OF w]
  have cases: "ss = [fs] \<or> (ss = ss' \<and> file_at fs path \<noteq> None
                 \<and> join (dirname path) ''.backups'' \<notin> refused fs)"
    using assms w
    by (auto simp: backupFileStates_def fileExists_def mkdir_def copyFileStates_def readFile_def
        split: if_splits prod.splits sum.splits option.splits)
  show "ss \<noteq> []" using cases p(1) by auto
  show "\<forall>s \<in> set ss. refused s = refused fs
            \<and> (\<forall>q. q \<noteq> backupPathOf now path \<longrightarrow> file_at s q = file_at fs q)"
    using cases p(2) by auto
  show "backupFile now path fs = (r, last ss)"
    using assms w p(4)
    by (auto simp: backupFileStates_def backupFile_def fileExists_def mkdir_def copyFileStates_def
        copyFile_def readFile_def split: if_splits prod.splits sum.splits option.splits)
qed

lemma atomicWriteStates_props:
  assumes now: "backup options \<longrightarrow> CHR ''/'' \<notin> set now \<and> now \<noteq> []"
    and T: "atomicWriteStates now path content options fs = (r, ss)"
  shows "ss \<noteq> []"
    and "\<forall>s \<in> set (butlast ss). file_at s path = file_at fs path"
    and "file_at (last ss) path = (if r = Inr () then Some content else file_at fs path)"
    and "atomicWrite now path content options fs = (r, last ss)"
proof -
  let ?tmp = "path @ ''.tmp''"
  have tmp: "path \<noteq> ?tmp" by simp
  have main: "ss \<noteq> [] \<and> (\<forall>s \<in> set (butlast ss). file_at s path = file_at fs path)
      \<and> file_at (last ss) path = (if r = Inr () then Some content else file_at fs path)
      \<and> atomicWrite now path content options fs = (r, last ss)"
  proof (cases "createDirs options \<and> dirname path \<in> refused fs")
    case True
    with T show "ss \<noteq> [] \<and> (\<forall>s \<in> set (butlast ss). file_at s path = file_at fs path)
      \<and> file_at (last ss) path = (if r = Inr () then Some content else file_at fs path)
      \<and> atomicWrite now path content options fs = (r, last ss)"
      by (auto simp: atomicWriteStates_def atomicWrite_def mkdir_def)
  next
    case False
    then have mk: "(if createDirs options then mkdir (dirname path) fs else (Inr (), fs)) = (Inr (), fs)"
      by (auto simp: mkdir_def)
    obtain rb sb where B: "(if backup options then backupFileStates now path fs else (Inr None, [fs])) = (rb, sb)"
      by (cases "if backup options then backupFileStates now path fs else (Inr None, [fs])") auto
    have sb: "sb \<noteq> []"
      "\<forall>s \<in> set sb. refused s = refused fs \<and> file_at s path = file_at fs path"
      "(if backup options then backupFile now path fs else (Inr None, fs)) = (rb, last sb)"
    proof -
      show "sb \<noteq> []" using B backupFileStates_props(1) [of now path fs rb sb]
        by (auto split: if_splits)
      show "\<forall>s \<in> set sb. refused s = refused fs \<and> file_at s path = file_at fs path"
      proof (cases "backup options")
        case True
        with now have "backupPathOf now path \<noteq> path" using backupPath_differs by blast
        with True B backupFileStates_props(2) [of now path fs rb sb] show ?thesis by auto
      next
        case False
        with B show ?thesis by auto
      qed
      show "(if backup options then backupFile now path fs else (Inr None, fs)) = (rb, last sb)"
        using B backupFileStates_props(3) [of now path fs rb sb] by (auto split: if_splits)
    qed
    show ?thesis
    proof (cases rb)
      case (Inl e)
      with T mk B sb show ?thesis
        by (auto simp: atomicWriteStates_def atomicWrite_def dest: in_set_butlastD)
    next
      case (Inr b)
      obtain rw sw where W: "writeFileStates ?tmp content (last sb) = (rw, sw)"
        by (cases "writeFileStates ?tmp content (last sb)") auto
      note w = writeFileStates_props [OF W]
      have lsb: "refused (last sb) = refused fs" "file_at (last sb) path = file_at fs path"
        using sb(1,2) last_in_set [of sb] by auto
      have sw: "\<forall>s \<in> set sw. refused s = refused fs \<and> file_at s path = file_at fs path"
        using w(2) lsb tmp by auto
      have lsw: "refused (last sw) = refused fs" "file_at (last sw) path = file_at fs path"
        using sw w(1) last_in_set [of sw] by auto
      show ?thesis
      proof (cases rw)
        case (Inl e)
        with T mk B Inr W have r: "r = Inl e" "ss = sb @ sw"
          by (auto simp: atomicWriteStates_def Let_def)
        have "atomicWrite now path content options fs = (Inl e, last sw)"
          using mk sb(3) Inr w(4) Inl by (simp add: atomicWrite_def Let_def)
        with r sb sw w(1) lsw show ?thesis
          by (auto simp: butlast_append dest: in_set_butlastD)
      next
        case (Inr u)
        obtain rr fs4 where R: "rename ?tmp path (last sw) = (rr, fs4)"
          by (cases "rename ?tmp path (last sw)") auto
        from T mk B \<open>rb = Inr b\<close> W Inr R have r: "r = rr" "ss = sb @ sw @ [fs4]"
          by (auto simp: atomicWriteStates_def Let_def)
        have written: "file_at (last sw) ?tmp = Some content" using w(3) Inr by simp
        have f4: "file_at fs4 path = (if rr = Inr () then Some content else file_at fs path)"
          using R written lsw by (auto simp: rename_def split: if_splits)
        have "atomicWrite now path content options fs = (rr, fs4)"
          using mk sb(3) \<open>rb = Inr b\<close> w(4) Inr R by (simp add: atomicWrite_def Let_def)
        with r sb sw f4 show ?thesis
          by (auto simp: butlast_append)
      qed
    qed
  qed
  from main show "ss \<noteq> []" "\<forall>s \<in> set (butlast ss). file_at s path = file_at fs path"
    "file_at (last ss) path = (if r = Inr () then Some content else file_at fs path)"
    "atomicWrite now path content options fs = (r, last ss)"
    by blast+
qed

text \<open>
  Claim C9. During \<^verbatim>\<open>atomicWrite\<close> (with a timestamp that is not empty and has no slash,
  where a backup is asked for) every state of the file system shows, at the destination
  path, either the former content or the whole new content: all states but the last show
  the former content, and the last one shows the new content when the write succeeds and
  the former content when it fails. The states end in the file system that
  \<^verbatim>\<open>atomicWrite\<close> returns.
\<close>

theorem atomicWrite_never_partial:
  "(backup options \<longrightarrow> CHR ''/'' \<notin> set now \<and> now \<noteq> []) \<longrightarrow>
     (\<forall>s \<in> set (snd (atomicWriteStates now path content options fs)).
        file_at s path = file_at fs path \<or> file_at s path = Some content)
     \<and> (\<forall>s \<in> set (butlast (snd (atomicWriteStates now path content options fs))).
          file_at s path = file_at fs path)
     \<and> atomicWrite now path content options fs
         = (fst (atomicWriteStates now path content options fs),
            last (snd (atomicWriteStates now path content options fs)))
     \<and> (fst (atomicWrite now path content options fs) = Inr () \<longrightarrow>
          file_at (snd (atomicWrite now path content options fs)) path = Some content)"
proof
  assume now: "backup options \<longrightarrow> CHR ''/'' \<notin> set now \<and> now \<noteq> []"
  obtain r ss where T: "atomicWriteStates now path content options fs = (r, ss)"
    by (cases "atomicWriteStates now path content options fs") auto
  note p = atomicWriteStates_props [OF now T]
  have "\<forall>s \<in> set ss. file_at s path = file_at fs path \<or> file_at s path = Some content"
  proof
    fix s assume "s \<in> set ss"
    then have "s \<in> set (butlast ss) \<or> s = last ss"
      using p(1) by (metis append_butlast_last_id in_set_conv_decomp_last Un_iff insert_iff
          list.set(1) list.set(2) set_append empty_iff)
    with p(2,3) show "file_at s path = file_at fs path \<or> file_at s path = Some content"
      by auto
  qed
  with p T show "(\<forall>s \<in> set (snd (atomicWriteStates now path content options fs)).
        file_at s path = file_at fs path \<or> file_at s path = Some content)
     \<and> (\<forall>s \<in> set (butlast (snd (atomicWriteStates now path content options fs))).
          file_at s path = file_at fs path)
     \<and> atomicWrite now path content options fs
         = (fst (atomicWriteStates now path content options fs),
            last (snd (atomicWriteStates now path content options fs)))
     \<and> (fst (atomicWrite now path content options fs) = Inr () \<longrightarrow>
          file_at (snd (atomicWrite now path content options fs)) path = Some content)"
    by simp
qed

lemma note_backup:
  "backupPathOf ''2026-02-05T10:00:00.000Z'' ''note.json''
     = ''.backups/note.json.2026-02-05T10-00-00-000Z''"
  "join (dirname ''note.json'') ''.backups'' = ''.backups''"
  by (simp_all add: backupPathOf_def dirname_def join_def normalizePath_def splitOn_def)

lemma note_states:
  "atomicWriteStates ''2026-02-05T10:00:00.000Z'' ''note.json'' ''ab''
     \<lparr>backup = True, createDirs = True\<rparr> noteDisk
   = (Inr (),
      [\<lparr>file_at = [''note.json'' \<mapsto> ''xy'', ''.backups/note.json.2026-02-05T10-00-00-000Z'' \<mapsto> ''''],
         refused = {}\<rparr>,
       \<lparr>file_at = [''note.json'' \<mapsto> ''xy'', ''.backups/note.json.2026-02-05T10-00-00-000Z'' \<mapsto> ''x''],
         refused = {}\<rparr>,
       \<lparr>file_at = [''note.json'' \<mapsto> ''xy'', ''.backups/note.json.2026-02-05T10-00-00-000Z'' \<mapsto> ''xy''],
         refused = {}\<rparr>,
       \<lparr>file_at = [''note.json'' \<mapsto> ''xy'', ''.backups/note.json.2026-02-05T10-00-00-000Z'' \<mapsto> ''xy'',
                     ''note.json.tmp'' \<mapsto> ''''],
         refused = {}\<rparr>,
       \<lparr>file_at = [''note.json'' \<mapsto> ''xy'', ''.backups/note.json.2026-02-05T10-00-00-000Z'' \<mapsto> ''xy'',
                     ''note.json.tmp'' \<mapsto> ''a''],
         refused = {}\<rparr>,
       \<lparr>file_at = [''note.json'' \<mapsto> ''xy'', ''.backups/note.json.2026-02-05T10-00-00-000Z'' \<mapsto> ''xy'',
                     ''note.json.tmp'' \<mapsto> ''ab''],
         refused = {}\<rparr>,
       \<lparr>file_at = ([''note.json'' \<mapsto> ''xy'', ''.backups/note.json.2026-02-05T10-00-00-000Z'' \<mapsto> ''xy'',
                     ''note.json.tmp'' \<mapsto> ''ab''](''note.json.tmp'' := None))(''note.json'' \<mapsto> ''ab''),
         refused = {}\<rparr>])"
  by (simp add: atomicWriteStates_def mkdir_def backupFileStates_def fileExists_def
      copyFileStates_def readFile_def writeFileStates_def rename_def noteDisk_def note_backup
      upt_rec Let_def)

theorem atomicWrite_never_partial_witness:
  "map (\<lambda>s. file_at s ''note.json'')
     (snd (atomicWriteStates ''2026-02-05T10:00:00.000Z'' ''note.json'' ''ab''
             \<lparr>backup = True, createDirs = True\<rparr> noteDisk))
   = [Some ''xy'', Some ''xy'', Some ''xy'', Some ''xy'', Some ''xy'', Some ''xy'', Some ''ab'']
   \<and> map (\<lambda>s. file_at s ''note.json'') (snd (writeFileStates ''note.json'' ''ab'' noteDisk))
     = [Some [], Some ''a'', Some ''ab'']"
proof -
  have w: "map (\<lambda>s. file_at s ''note.json'') (snd (writeFileStates ''note.json'' ''ab'' noteDisk))
     = [Some [], Some ''a'', Some ''ab'']"
    by (simp add: writeFileStates_def noteDisk_def upt_rec)
  show ?thesis
    using atomicWrite_never_partial [where now = "''2026-02-05T10:00:00.000Z''"
        and path = "''note.json''" and content = "''ab''"
        and options = "\<lparr>backup = True, createDirs = True\<rparr>" and fs = noteDisk] w
    by (simp add: note_states)
qed

end
